theory Spec2Isabelle
  imports Main
begin

section \<open>SimpleVector: a shallow embedding of simple\_vector.h\<close>

text \<open>
  The class template \<open>SimpleVector<Type>\<close> of \<open>simple_vector.h\<close> owns one heap allocation
  (\<open>ArrayPtr<Type> raw_ptr_\<close>) and two counters (\<open>size_\<close>, \<open>capacity_\<close>). The model keeps
  the three members in a record. Isabelle refuses names that end in an underscore, so
  the members \<open>size_\<close>, \<open>capacity_\<close>, \<open>raw_ptr_\<close> are called \<open>m_size\<close>, \<open>m_capacity\<close>,
  \<open>m_raw_ptr\<close>.

  \<^item> The allocation is a list whose length is the number of allocated slots; this is
    independent of the counter \<open>m_capacity\<close>, exactly as in the C++ class.
  \<^item> An iterator (\<open>Type*\<close>) into the vector is the index of the slot it points to:
    \<open>begin()\<close> is 0 and \<open>end()\<close> is \<open>m_size\<close>.
  \<^item> \<open>size_t\<close> values are natural numbers. The only place where the source can wrap
    around is \<open>--size_\<close> on a zero size; the wrap is written out in \<open>dec_size_t\<close>.
    A capacity is the length of an allocation that succeeded, hence far below
    \<open>2^63\<close>, so \<open>2 * capacity_\<close> and \<open>++size_\<close> do not wrap. Allocation is assumed
    to succeed (\<open>std::bad_alloc\<close> is not modelled).
  \<^item> Every operation that can throw, abort on a failed \<open>assert\<close>, or run into undefined
    behaviour (an access outside the allocation, an invalid iterator range handed to a
    standard algorithm) returns \<open>error + result\<close>, with \<open>Inl\<close> for the failure.
  \<^item> \<open>assert\<close> is the macro of \<open><cassert>\<close>: it aborts when its argument is false unless
    the translation unit is compiled with \<open>NDEBUG\<close>. The operations that contain an
    \<open>assert\<close> take the flag \<open>dbg\<close>: \<open>True\<close> for a build with assertions (the default),
    \<open>False\<close> for a build with \<open>NDEBUG\<close>.
  \<^item> Moving from an element (\<open>std::move\<close>) gives its value to the destination and leaves
    the source in its moved-from state. The element type is a template parameter, so the
    moved-from state is the parameter \<open>moved\<close>: a moved-from object that held \<open>x\<close> holds
    \<open>moved x\<close> (the identity for scalar types, some valid but unspecified value otherwise).
  \<^item> \<open>PushBack\<close> and \<open>Insert\<close> take their argument by reference (\<open>const Type &\<close> or
    \<open>Type &&\<close>) and read it late. The type \<open>arg\<close> says what the reference is bound to: an
    object outside the vector, or a slot of the vector's own allocation.
\<close>

datatype error = OutOfRange | AssertionFailed | UndefinedBehaviour

record 'a SimpleVector =
  m_size :: nat
  m_capacity :: nat
  m_raw_ptr :: "'a list"

subsection \<open>The buffer primitive and the standard algorithms\<close>

text \<open>
  Modelled from the spec: \<open>array_ptr.h\<close> (the class \<open>ArrayPtr\<close>) is not part of the
  sources. The spec describes it as the primitive \<open>Buffer<T>\<close>: "\<open>Buffer(n)\<close> allocates n
  default-constructed-or-uninitialized slots; \<open>get()\<close> returns a raw access point to slot
  0; \<open>swap(other)\<close> exchanges ownership". The content of a fresh slot is therefore not
  fixed; it is the parameter \<open>fresh\<close> (slot \<open>i\<close> of a new allocation holds \<open>fresh i\<close>).
  A default-constructed \<open>ArrayPtr\<close> owns no slots.
\<close>

definition ArrayPtr :: "(nat \<Rightarrow> 'a) \<Rightarrow> nat \<Rightarrow> 'a list" where
  "ArrayPtr fresh n = map fresh [0..<n]"

text \<open>\<open>raw_ptr_[index] = x\<close> and reading \<open>raw_ptr_[index]\<close>: unchecked in C++, undefined
  outside the allocation.\<close>

definition buf_write :: "'a list \<Rightarrow> nat \<Rightarrow> 'a \<Rightarrow> error + 'a list" where
  "buf_write buf index x =
     (if index < length buf then Inr (buf[index := x]) else Inl UndefinedBehaviour)"

definition buf_read :: "'a list \<Rightarrow> nat \<Rightarrow> error + 'a" where
  "buf_read buf index =
     (if index < length buf then Inr (buf ! index) else Inl UndefinedBehaviour)"

text \<open>
  What a reference parameter (\<open>const Type &item\<close>, \<open>Type &&item\<close>) is bound to:
  \<^item> \<open>External x\<close>: an object that is not a slot of this vector (a temporary, a local, an
    element of another container) and holds \<open>x\<close>. Both overloads behave alike on it: moving
    from it changes the caller's object only.
  \<^item> \<open>Slot k\<close>: the slot \<open>raw_ptr_[k]\<close> of this vector, passed as an lvalue (\<open>v[k]\<close>); the call
    goes to the \<open>const Type &\<close> overload.
  \<^item> \<open>Moved_slot k\<close>: the same slot passed as \<open>std::move(v[k])\<close>; the call goes to the
    \<open>Type &&\<close> overload, whose assignment leaves the slot moved-from.
\<close>

datatype 'a arg = External 'a | Slot nat | Moved_slot nat

text \<open>
  \<open>raw_ptr_[index] = item\<close> (or \<open>= std::move(item)\<close>), executed on the current allocation
  \<open>buf\<close>. \<open>released\<close> says whether the allocation the vector owned when the call began has
  been released in between: a reference to one of its slots then dangles, and reading
  through it is undefined.
\<close>

definition slot_assign ::
  "('a \<Rightarrow> 'a) \<Rightarrow> 'a list \<Rightarrow> nat \<Rightarrow> bool \<Rightarrow> 'a arg \<Rightarrow> error + 'a list" where
  "slot_assign moved buf index released item =
     (case item of
        External x \<Rightarrow> buf_write buf index x
      | Slot k \<Rightarrow>
          (if released then Inl UndefinedBehaviour
           else if k < length buf \<and> index < length buf then Inr (buf[index := buf ! k])
           else Inl UndefinedBehaviour)
      | Moved_slot k \<Rightarrow>
          (if released then Inl UndefinedBehaviour
           else if k < length buf \<and> index < length buf
             then Inr ((buf[index := buf ! k])[k := moved (buf ! k)])
           else Inl UndefinedBehaviour))"

text \<open>
  \<open>std::fill(first, last, value)\<close> runs \<open>for (; first != last; ++first) *first = value\<close>.
  The standard requires \<open>[first, last)\<close> to be a valid range; with \<open>last\<close> before \<open>first\<close>
  the loop never meets \<open>last\<close> and writes past the allocation.
\<close>

fun fill_loop :: "'a list \<Rightarrow> nat \<Rightarrow> nat \<Rightarrow> 'a \<Rightarrow> 'a list" where
  "fill_loop buf first 0 x = buf"
| "fill_loop buf first (Suc n) x = fill_loop (buf[first := x]) (Suc first) n x"

definition std_fill :: "'a list \<Rightarrow> nat \<Rightarrow> nat \<Rightarrow> 'a \<Rightarrow> error + 'a list" where
  "std_fill buf first lst x =
     (if first \<le> lst \<and> lst \<le> length buf
      then Inr (fill_loop buf first (lst - first) x)
      else Inl UndefinedBehaviour)"

text \<open>
  \<open>std::copy\<close> / \<open>std::move\<close> from one allocation into another one
  (\<open>*d_first++ = *first++\<close> while \<open>first != last\<close>); the result is the destination.
  Where the source uses \<open>std::move\<close> for this (\<open>Reserve\<close>), the source allocation is
  released right after, so its moved-from slots are not part of any later state.
\<close>

fun copy_loop :: "'a list \<Rightarrow> nat \<Rightarrow> 'a list \<Rightarrow> nat \<Rightarrow> nat \<Rightarrow> 'a list" where
  "copy_loop src first dst d_first 0 = dst"
| "copy_loop src first dst d_first (Suc n) =
     copy_loop src (Suc first) (dst[d_first := src ! first]) (Suc d_first) n"

definition std_copy :: "'a list \<Rightarrow> nat \<Rightarrow> nat \<Rightarrow> 'a list \<Rightarrow> nat \<Rightarrow> error + 'a list" where
  "std_copy src first lst dst d_first =
     (if first \<le> lst \<and> lst \<le> length src \<and> d_first + (lst - first) \<le> length dst
      then Inr (copy_loop src first dst d_first (lst - first))
      else Inl UndefinedBehaviour)"

text \<open>
  \<open>std::move(first, last, d_first)\<close> inside one allocation runs
  \<open>*d_first++ = std::move(*first++)\<close> while \<open>first != last\<close>: every step writes the
  destination and leaves the source slot moved-from, and every write is visible to the
  later reads. The standard requires \<open>d_first\<close> to lie outside \<open>[first, last)\<close>.
\<close>

fun move_loop :: "('a \<Rightarrow> 'a) \<Rightarrow> 'a list \<Rightarrow> nat \<Rightarrow> nat \<Rightarrow> nat \<Rightarrow> 'a list" where
  "move_loop moved buf first d_first 0 = buf"
| "move_loop moved buf first d_first (Suc n) =
     move_loop moved ((buf[d_first := buf ! first])[first := moved (buf ! first)])
       (Suc first) (Suc d_first) n"

definition std_move :: "('a \<Rightarrow> 'a) \<Rightarrow> 'a list \<Rightarrow> nat \<Rightarrow> nat \<Rightarrow> nat \<Rightarrow> error + 'a list" where
  "std_move moved buf first lst d_first =
     (if first \<le> lst \<and> lst \<le> length buf \<and> d_first + (lst - first) \<le> length buf
         \<and> \<not> (first \<le> d_first \<and> d_first < lst)
      then Inr (move_loop moved buf first d_first (lst - first))
      else Inl UndefinedBehaviour)"

text \<open>
  \<open>std::move_backward(first, last, d_last)\<close> inside one allocation runs
  \<open>while (first != last) *(--d_last) = std::move(*(--last))\<close>: last element first, each
  source slot left moved-from. The standard requires \<open>d_last\<close> to lie outside \<open>(first, last]\<close>.
\<close>

fun move_backward_loop :: "('a \<Rightarrow> 'a) \<Rightarrow> 'a list \<Rightarrow> nat \<Rightarrow> nat \<Rightarrow> nat \<Rightarrow> 'a list" where
  "move_backward_loop moved buf lst d_lst 0 = buf"
| "move_backward_loop moved buf lst d_lst (Suc n) =
     move_backward_loop moved
       ((buf[d_lst - 1 := buf ! (lst - 1)])[lst - 1 := moved (buf ! (lst - 1))])
       (lst - 1) (d_lst - 1) n"

definition std_move_backward ::
  "('a \<Rightarrow> 'a) \<Rightarrow> 'a list \<Rightarrow> nat \<Rightarrow> nat \<Rightarrow> nat \<Rightarrow> error + 'a list" where
  "std_move_backward moved buf first lst d_lst =
     (if first \<le> lst \<and> lst \<le> length buf \<and> lst - first \<le> d_lst \<and> d_lst \<le> length buf
         \<and> \<not> (first < d_lst \<and> d_lst \<le> lst)
      then Inr (move_backward_loop moved buf lst d_lst (lst - first))
      else Inl UndefinedBehaviour)"

text \<open>\<open>--size_\<close> on a 64-bit \<open>size_t\<close>: zero wraps to \<open>2^64 - 1\<close>.\<close>

definition dec_size_t :: "nat \<Rightarrow> nat" where
  "dec_size_t n = (if n = 0 then 2 ^ 64 - 1 else n - 1)"

subsection \<open>Observers\<close>

definition GetSize :: "'a SimpleVector \<Rightarrow> nat" where
  "GetSize v = m_size v"

definition GetCapacity :: "'a SimpleVector \<Rightarrow> nat" where
  "GetCapacity v = m_capacity v"

definition IsEmpty :: "'a SimpleVector \<Rightarrow> bool" where
  "IsEmpty v = (m_size v = 0)"

definition vbegin :: "'a SimpleVector \<Rightarrow> nat" where
  "vbegin v = 0"

definition vend :: "'a SimpleVector \<Rightarrow> nat" where
  "vend v = m_size v"

text \<open>The live elements are the first \<open>size_\<close> slots. \<open>live_range\<close> is the read of
  \<open>[begin(), end())\<close> by an algorithm: undefined when the range leaves the allocation.\<close>

definition live :: "'a SimpleVector \<Rightarrow> 'a list" where
  "live v = take (m_size v) (m_raw_ptr v)"

definition live_range :: "'a SimpleVector \<Rightarrow> error + 'a list" where
  "live_range v =
     (if m_size v \<le> length (m_raw_ptr v) then Inr (live v) else Inl UndefinedBehaviour)"

text \<open>The data-model invariant of the spec: \<open>size <= capacity\<close>, and \<open>capacity\<close> is the
  number of allocated slots.\<close>

definition valid :: "'a SimpleVector \<Rightarrow> bool" where
  "valid v = (m_size v \<le> m_capacity v \<and> m_capacity v = length (m_raw_ptr v))"

text \<open>A weaker condition: the live range \<open>[begin(), end())\<close> lies inside the allocation.
  This is what reading the live elements needs; it follows from \<open>valid\<close> and it also holds
  for the objects the copy constructor builds.\<close>

definition allocated :: "'a SimpleVector \<Rightarrow> bool" where
  "allocated v = (m_size v \<le> length (m_raw_ptr v))"

subsection \<open>Reserve and the constructors\<close>

definition Reserve :: "(nat \<Rightarrow> 'a) \<Rightarrow> nat \<Rightarrow> 'a SimpleVector \<Rightarrow> error + 'a SimpleVector" where
  "Reserve fresh new_capacity v =
     (if new_capacity \<ge> m_capacity v then
        (case std_copy (m_raw_ptr v) (vbegin v) (vend v) (ArrayPtr fresh new_capacity) 0 of
           Inl e \<Rightarrow> Inl e
         | Inr new_items \<Rightarrow> Inr (v\<lparr>m_raw_ptr := new_items, m_capacity := new_capacity\<rparr>))
      else Inr v)"

text \<open>\<open>Reserve\<close> replaces the allocation exactly when it takes its \<open>if\<close> branch; the old
  allocation is released when the local \<open>new_items\<close> goes out of scope, and references to
  its slots dangle from then on.\<close>

definition Reserve_reallocates :: "nat \<Rightarrow> 'a SimpleVector \<Rightarrow> bool" where
  "Reserve_reallocates new_capacity v = (new_capacity \<ge> m_capacity v)"

text \<open>\<open>SimpleVector() noexcept = default\<close>: the member initialisers \<open>size_ = 0\<close>,
  \<open>capacity_ = 0\<close> and an \<open>ArrayPtr\<close> without slots.\<close>

definition SimpleVector_default :: "'a SimpleVector" where
  "SimpleVector_default = \<lparr>m_size = 0, m_capacity = 0, m_raw_ptr = []\<rparr>"

text \<open>\<open>SimpleVector(ReserveProxyObj reserve)\<close>.\<close>

definition SimpleVector_reserve :: "(nat \<Rightarrow> 'a) \<Rightarrow> nat \<Rightarrow> error + 'a SimpleVector" where
  "SimpleVector_reserve fresh capacity_to_reserve =
     Reserve fresh capacity_to_reserve SimpleVector_default"

text \<open>\<open>SimpleVector(const SimpleVector &other)\<close>: the initialisers are
  \<open>size_(other.size_), capacity_(other.capacity_), raw_ptr_(other.size_)\<close>.\<close>

definition SimpleVector_copy :: "(nat \<Rightarrow> 'a) \<Rightarrow> 'a SimpleVector \<Rightarrow> error + 'a SimpleVector" where
  "SimpleVector_copy fresh other =
     (case std_copy (m_raw_ptr other) (vbegin other) (vend other)
             (ArrayPtr fresh (m_size other)) 0 of
        Inl e \<Rightarrow> Inl e
      | Inr items \<Rightarrow>
          Inr \<lparr>m_size = m_size other, m_capacity = m_capacity other, m_raw_ptr = items\<rparr>)"

text \<open>\<open>SimpleVector(size_t size)\<close> (with \<open>dflt\<close> for \<open>Type{}\<close>) and
  \<open>SimpleVector(size_t size, const Type &value)\<close>.\<close>

definition SimpleVector_fill :: "(nat \<Rightarrow> 'a) \<Rightarrow> nat \<Rightarrow> 'a \<Rightarrow> error + 'a SimpleVector" where
  "SimpleVector_fill fresh n x =
     (case std_fill (ArrayPtr fresh n) 0 n x of
        Inl e \<Rightarrow> Inl e
      | Inr items \<Rightarrow> Inr \<lparr>m_size = n, m_capacity = n, m_raw_ptr = items\<rparr>)"

text \<open>\<open>SimpleVector(std::initializer_list<Type> init)\<close>.\<close>

definition SimpleVector_init :: "(nat \<Rightarrow> 'a) \<Rightarrow> 'a list \<Rightarrow> error + 'a SimpleVector" where
  "SimpleVector_init fresh init =
     (case std_copy init 0 (length init) (ArrayPtr fresh (length init)) 0 of
        Inl e \<Rightarrow> Inl e
      | Inr items \<Rightarrow>
          Inr \<lparr>m_size = length init, m_capacity = length init, m_raw_ptr = items\<rparr>)"

text \<open>\<open>swap\<close> exchanges the three members; the result is the pair (this, other).\<close>

definition swap :: "'a SimpleVector \<Rightarrow> 'a SimpleVector \<Rightarrow> 'a SimpleVector \<times> 'a SimpleVector" where
  "swap this other =
     (this\<lparr>m_raw_ptr := m_raw_ptr other, m_size := m_size other, m_capacity := m_capacity other\<rparr>,
      other\<lparr>m_raw_ptr := m_raw_ptr this, m_size := m_size this, m_capacity := m_capacity this\<rparr>)"

text \<open>\<open>SimpleVector(SimpleVector &&other)\<close>: a default-initialised object swapped with
  \<open>other\<close>; the result is (new object, moved-from source).\<close>

definition SimpleVector_move :: "'a SimpleVector \<Rightarrow> 'a SimpleVector \<times> 'a SimpleVector" where
  "SimpleVector_move other = swap SimpleVector_default other"

text \<open>Copy assignment \<open>operator=(const SimpleVector &rhs)\<close> for \<open>this != &rhs\<close>: copy
  construct a temporary, swap with it, the temporary is destroyed.\<close>

definition assign_copy :: "(nat \<Rightarrow> 'a) \<Rightarrow> 'a SimpleVector \<Rightarrow> 'a SimpleVector \<Rightarrow> error + 'a SimpleVector" where
  "assign_copy fresh this rhs =
     (case SimpleVector_copy fresh rhs of
        Inl e \<Rightarrow> Inl e
      | Inr tmp \<Rightarrow> Inr (fst (swap this tmp)))"

text \<open>Move assignment \<open>operator=(SimpleVector &&rhs)\<close> for \<open>this != &rhs\<close>; the result is
  (this, rhs).\<close>

definition assign_move :: "'a SimpleVector \<Rightarrow> 'a SimpleVector \<Rightarrow> 'a SimpleVector \<times> 'a SimpleVector" where
  "assign_move this rhs =
     (case SimpleVector_move rhs of (tmp, rhs') \<Rightarrow> (fst (swap this tmp), rhs'))"

subsection \<open>Element access\<close>

text \<open>\<open>operator[]\<close>: \<open>assert(index < size_)\<close>, then the unchecked read.\<close>

definition subscript :: "bool \<Rightarrow> 'a SimpleVector \<Rightarrow> nat \<Rightarrow> error + 'a" where
  "subscript dbg v index =
     (if dbg \<and> \<not> index < m_size v then Inl AssertionFailed
      else buf_read (m_raw_ptr v) index)"

text \<open>\<open>At\<close> throws \<open>std::out_of_range\<close> when \<open>index >= size_\<close>. It is a read of the
  object: the vector itself is not an output of the function.\<close>

definition At :: "'a SimpleVector \<Rightarrow> nat \<Rightarrow> error + 'a" where
  "At v index =
     (if index \<ge> m_size v then Inl OutOfRange
      else buf_read (m_raw_ptr v) index)"

subsection \<open>Mutators\<close>

definition Clear :: "'a SimpleVector \<Rightarrow> 'a SimpleVector" where
  "Clear v = v\<lparr>m_size := 0\<rparr>"

text \<open>\<open>Resize\<close>, with \<open>dflt\<close> for \<open>Type()\<close>. Both branches call \<open>std::fill\<close> on
  \<open>[begin() + size_, begin() + new_size)\<close> without comparing \<open>new_size\<close> with \<open>size_\<close>.\<close>

definition Resize :: "(nat \<Rightarrow> 'a) \<Rightarrow> 'a \<Rightarrow> nat \<Rightarrow> 'a SimpleVector \<Rightarrow> error + 'a SimpleVector" where
  "Resize fresh dflt new_size v =
     (if new_size \<le> m_capacity v then
        (case std_fill (m_raw_ptr v) (vbegin v + m_size v) (vbegin v + new_size) dflt of
           Inl e \<Rightarrow> Inl e
         | Inr items \<Rightarrow> Inr (v\<lparr>m_raw_ptr := items, m_size := new_size\<rparr>))
      else if new_size > m_capacity v then
        (case Reserve fresh (max new_size (2 * m_capacity v)) v of
           Inl e \<Rightarrow> Inl e
         | Inr v1 \<Rightarrow>
             (case std_fill (m_raw_ptr v1) (vbegin v1 + m_size v1) (vbegin v1 + new_size) dflt of
                Inl e \<Rightarrow> Inl e
              | Inr items \<Rightarrow> Inr (v1\<lparr>m_raw_ptr := items, m_size := new_size\<rparr>)))
      else Inr (v\<lparr>m_size := new_size\<rparr>))"

text \<open>\<open>PushBack\<close>: the overloads for \<open>Type &&\<close> and \<open>const Type &\<close> have the same body up to
  \<open>std::move\<close>; the constructor of the argument says which one is called. On the growth path
  the argument is read after \<open>Reserve\<close> has returned.\<close>

definition PushBack ::
  "(nat \<Rightarrow> 'a) \<Rightarrow> ('a \<Rightarrow> 'a) \<Rightarrow> 'a arg \<Rightarrow> 'a SimpleVector \<Rightarrow> error + 'a SimpleVector" where
  "PushBack fresh moved item v =
     (if m_size v < m_capacity v then
        (case slot_assign moved (m_raw_ptr v) (m_size v) False item of
           Inl e \<Rightarrow> Inl e
         | Inr items \<Rightarrow> Inr (v\<lparr>m_raw_ptr := items, m_size := m_size v + 1\<rparr>))
      else
        (case Reserve fresh (max 1 (2 * m_capacity v)) v of
           Inl e \<Rightarrow> Inl e
         | Inr v1 \<Rightarrow>
             (case slot_assign moved (m_raw_ptr v1) (m_size v1)
                     (Reserve_reallocates (max 1 (2 * m_capacity v)) v) item of
                Inl e \<Rightarrow> Inl e
              | Inr items \<Rightarrow> Inr (v1\<lparr>m_raw_ptr := items, m_size := m_size v1 + 1\<rparr>))))"

text \<open>A sequence of \<open>PushBack\<close> calls, stopping at the first failure.\<close>

fun PushBack_all ::
  "(nat \<Rightarrow> 'a) \<Rightarrow> ('a \<Rightarrow> 'a) \<Rightarrow> 'a arg list \<Rightarrow> 'a SimpleVector \<Rightarrow> error + 'a SimpleVector" where
  "PushBack_all fresh moved [] v = Inr v"
| "PushBack_all fresh moved (x # xs) v =
     (case PushBack fresh moved x v of
        Inl e \<Rightarrow> Inl e
      | Inr v1 \<Rightarrow> PushBack_all fresh moved xs v1)"

text \<open>\<open>VectorMove\<close> opens the gap for \<open>Insert\<close>. The source returns \<open>number_pos\<close>; the
  model returns \<open>number_pos\<close>, whether the allocation was replaced on the way (which
  decides whether the caller's reference parameter dangles), and the new state.
  \<open>std::distance(cbegin(), pos)\<close> is the index \<open>pos\<close> itself. The inner
  \<open>if (pos == end()) assert(pos == end())\<close> repeats its own guard and cannot fail, so it
  has no branch in the model.\<close>

definition VectorMove ::
  "(nat \<Rightarrow> 'a) \<Rightarrow> ('a \<Rightarrow> 'a) \<Rightarrow> nat \<Rightarrow> 'a SimpleVector
     \<Rightarrow> error + (nat \<times> bool \<times> 'a SimpleVector)" where
  "VectorMove fresh moved pos v =
     (let number_pos = pos - vbegin v in
      if m_size v < m_capacity v then
        (case std_move_backward moved (m_raw_ptr v) number_pos (vend v) (m_size v + 1) of
           Inl e \<Rightarrow> Inl e
         | Inr items \<Rightarrow>
             Inr (number_pos, False, v\<lparr>m_raw_ptr := items, m_size := m_size v + 1\<rparr>))
      else if m_capacity v = 0 then
        (case Reserve fresh 1 v of
           Inl e \<Rightarrow> Inl e
         | Inr v1 \<Rightarrow> Inr (number_pos, Reserve_reallocates 1 v, v1\<lparr>m_size := m_size v1 + 1\<rparr>))
      else
        (case Reserve fresh (2 * m_capacity v) v of
           Inl e \<Rightarrow> Inl e
         | Inr v1 \<Rightarrow>
             (case std_move_backward moved (m_raw_ptr v1) number_pos (vend v1) (m_size v1 + 1) of
                Inl e \<Rightarrow> Inl e
              | Inr items \<Rightarrow>
                  Inr (number_pos, Reserve_reallocates (2 * m_capacity v) v,
                       v1\<lparr>m_raw_ptr := items, m_size := m_size v1 + 1\<rparr>))))"

text \<open>\<open>Insert\<close> (both overloads, told apart by the argument as for \<open>PushBack\<close>):
  \<open>assert(pos > begin() || pos < end())\<close>, \<open>VectorMove\<close>, then the assignment
  \<open>raw_ptr_[number_pos] = value\<close>, which reads the reference after the elements have been
  shifted or moved to a new allocation; the returned iterator is the index \<open>number_pos\<close>.\<close>

definition Insert ::
  "bool \<Rightarrow> (nat \<Rightarrow> 'a) \<Rightarrow> ('a \<Rightarrow> 'a) \<Rightarrow> nat \<Rightarrow> 'a arg \<Rightarrow> 'a SimpleVector
     \<Rightarrow> error + (nat \<times> 'a SimpleVector)" where
  "Insert dbg fresh moved pos x v =
     (if dbg \<and> \<not> (pos > vbegin v \<or> pos < vend v) then Inl AssertionFailed
      else
        (case VectorMove fresh moved pos v of
           Inl e \<Rightarrow> Inl e
         | Inr (number_pos, released, v1) \<Rightarrow>
             (case slot_assign moved (m_raw_ptr v1) number_pos released x of
                Inl e \<Rightarrow> Inl e
              | Inr items \<Rightarrow> Inr (number_pos, v1\<lparr>m_raw_ptr := items\<rparr>))))"

text \<open>\<open>PopBack\<close>: \<open>assert(IsEmpty())\<close>, then \<open>--size_\<close>.\<close>

definition PopBack :: "bool \<Rightarrow> 'a SimpleVector \<Rightarrow> error + 'a SimpleVector" where
  "PopBack dbg v =
     (if dbg \<and> \<not> IsEmpty v then Inl AssertionFailed
      else Inr (v\<lparr>m_size := dec_size_t (m_size v)\<rparr>))"

text \<open>\<open>Erase\<close>: \<open>assert(pos > begin() || pos < end())\<close>, \<open>std::move(it + 1, end(), it)\<close>,
  \<open>--size_\<close>; the returned iterator is the index of \<open>it\<close>.\<close>

definition Erase ::
  "bool \<Rightarrow> ('a \<Rightarrow> 'a) \<Rightarrow> nat \<Rightarrow> 'a SimpleVector \<Rightarrow> error + (nat \<times> 'a SimpleVector)" where
  "Erase dbg moved pos v =
     (if dbg \<and> \<not> (pos > vbegin v \<or> pos < vend v) then Inl AssertionFailed
      else
        (let it = pos - vbegin v in
         case std_move moved (m_raw_ptr v) (it + 1) (vend v) it of
           Inl e \<Rightarrow> Inl e
         | Inr items \<Rightarrow> Inr (it, v\<lparr>m_raw_ptr := items, m_size := dec_size_t (m_size v)\<rparr>)))"

subsection \<open>Comparison operators\<close>

text \<open>\<open>std::equal(first1, last1, first2)\<close> on the elements of two ranges; the second range
  must be at least as long as the first.\<close>

fun std_equal :: "'a list \<Rightarrow> 'a list \<Rightarrow> error + bool" where
  "std_equal [] ys = Inr True"
| "std_equal (x # xs) [] = Inl UndefinedBehaviour"
| "std_equal (x # xs) (y # ys) = (if x = y then std_equal xs ys else Inr False)"

text \<open>\<open>std::lexicographical_compare\<close>: walk both ranges while neither is exhausted, decide
  at the first pair with \<open>a < b\<close> or \<open>b < a\<close>; otherwise the first range is smaller iff it
  ends first.\<close>

fun lexicographical_compare :: "'a::ord list \<Rightarrow> 'a list \<Rightarrow> bool" where
  "lexicographical_compare [] ys = (ys \<noteq> [])"
| "lexicographical_compare (x # xs) [] = False"
| "lexicographical_compare (x # xs) (y # ys) =
     (if x < y then True else if y < x then False else lexicographical_compare xs ys)"

definition operator_eq :: "'a SimpleVector \<Rightarrow> 'a SimpleVector \<Rightarrow> error + bool" where
  "operator_eq lhs rhs =
     (if GetSize lhs \<noteq> GetSize rhs then Inr False
      else
        (case live_range lhs of
           Inl e \<Rightarrow> Inl e
         | Inr xs \<Rightarrow> (case live_range rhs of Inl e \<Rightarrow> Inl e | Inr ys \<Rightarrow> std_equal xs ys)))"

definition operator_ne :: "'a SimpleVector \<Rightarrow> 'a SimpleVector \<Rightarrow> error + bool" where
  "operator_ne lhs rhs =
     (case operator_eq lhs rhs of Inl e \<Rightarrow> Inl e | Inr b \<Rightarrow> Inr (\<not> b))"

definition operator_lt :: "('a::ord) SimpleVector \<Rightarrow> 'a SimpleVector \<Rightarrow> error + bool" where
  "operator_lt lhs rhs =
     (case live_range lhs of
        Inl e \<Rightarrow> Inl e
      | Inr xs \<Rightarrow>
          (case live_range rhs of
             Inl e \<Rightarrow> Inl e
           | Inr ys \<Rightarrow> Inr (lexicographical_compare xs ys)))"

definition operator_le :: "('a::ord) SimpleVector \<Rightarrow> 'a SimpleVector \<Rightarrow> error + bool" where
  "operator_le lhs rhs =
     (case operator_lt rhs lhs of Inl e \<Rightarrow> Inl e | Inr b \<Rightarrow> Inr (\<not> b))"

definition operator_gt :: "('a::ord) SimpleVector \<Rightarrow> 'a SimpleVector \<Rightarrow> error + bool" where
  "operator_gt lhs rhs = operator_lt rhs lhs"

definition operator_ge :: "('a::ord) SimpleVector \<Rightarrow> 'a SimpleVector \<Rightarrow> error + bool" where
  "operator_ge lhs rhs =
     (case operator_lt lhs rhs of Inl e \<Rightarrow> Inl e | Inr b \<Rightarrow> Inr (\<not> b))"

subsection \<open>Insert followed by Erase\<close>

text \<open>The round trip \<open>Insert(pos, x)\<close>, then \<open>Erase\<close> of the returned iterator.\<close>

definition Insert_then_Erase ::
  "bool \<Rightarrow> (nat \<Rightarrow> 'a) \<Rightarrow> ('a \<Rightarrow> 'a) \<Rightarrow> nat \<Rightarrow> 'a arg \<Rightarrow> 'a SimpleVector
     \<Rightarrow> error + (nat \<times> 'a SimpleVector)" where
  "Insert_then_Erase dbg fresh moved pos x v =
     (case Insert dbg fresh moved pos x v of
        Inl e \<Rightarrow> Inl e
      | Inr (it, v1) \<Rightarrow> Erase dbg moved it v1)"

section \<open>Properties\<close>

subsection \<open>The loops of the standard algorithms\<close>

lemma length_fill_loop: "length (fill_loop buf first n x) = length buf"
  by (induction n arbitrary: buf first) simp_all

lemma nth_fill_loop:
  "i < length buf \<Longrightarrow>
   fill_loop buf first n x ! i = (if first \<le> i \<and> i < first + n then x else buf ! i)"
  by (induction n arbitrary: buf first) (auto simp: nth_list_update)

lemma length_copy_loop: "length (copy_loop src first dst d_first n) = length dst"
  by (induction n arbitrary: dst first d_first) simp_all

lemma nth_copy_loop:
  "i < length dst \<Longrightarrow>
   copy_loop src first dst d_first n ! i =
     (if d_first \<le> i \<and> i < d_first + n then src ! (first + (i - d_first)) else dst ! i)"
proof (induction n arbitrary: dst first d_first)
  case 0
  then show ?case by auto
next
  case (Suc n)
  consider "i < d_first" | "i = d_first" | "d_first < i" by arith
  then show ?case
  proof cases
    case 1
    with Suc show ?thesis by (simp add: nth_list_update)
  next
    case 2
    with Suc show ?thesis by (simp add: nth_list_update)
  next
    case 3
    then have "Suc first + (i - Suc d_first) = first + (i - d_first)" by arith
    with 3 Suc show ?thesis by (auto simp: nth_list_update)
  qed
qed

lemma length_move_loop: "length (move_loop moved buf first d_first n) = length buf"
  by (induction n arbitrary: buf first d_first) simp_all

lemma nth_move_loop:
  "i < length buf \<Longrightarrow> d_first < first \<Longrightarrow>
   move_loop moved buf first d_first n ! i =
     (if d_first \<le> i \<and> i < d_first + n then buf ! (first + (i - d_first))
      else if first \<le> i \<and> i < first + n then moved (buf ! i)
      else buf ! i)"
proof (induction n arbitrary: buf first d_first)
  case 0
  then show ?case by auto
next
  case (Suc n)
  let ?buf = "(buf[d_first := buf ! first])[first := moved (buf ! first)]"
  have ih: "move_loop moved ?buf (Suc first) (Suc d_first) n ! i =
     (if Suc d_first \<le> i \<and> i < Suc d_first + n then ?buf ! (Suc first + (i - Suc d_first))
      else if Suc first \<le> i \<and> i < Suc first + n then moved (?buf ! i)
      else ?buf ! i)"
    using Suc.prems by (intro Suc.IH) auto
  have step: "move_loop moved buf first d_first (Suc n) =
      move_loop moved ?buf (Suc first) (Suc d_first) n"
    by simp
  consider "i < d_first" | "i = d_first" | "d_first < i" "i < first" | "i = first"
    | "first < i" using Suc.prems(2) by arith
  then show ?case
  proof cases
    case 1
    with Suc.prems show ?thesis unfolding step ih by (simp add: nth_list_update)
  next
    case 2
    with Suc.prems show ?thesis unfolding step ih by (simp add: nth_list_update)
  next
    case 3
    then have "Suc first + (i - Suc d_first) = first + (i - d_first)" by arith
    with 3 Suc.prems show ?thesis unfolding step ih by (auto simp: nth_list_update)
  next
    case 4
    then have "Suc first + (i - Suc d_first) = first + (i - d_first)"
      using Suc.prems(2) by arith
    with 4 Suc.prems show ?thesis unfolding step ih by (auto simp: nth_list_update)
  next
    case 5
    then have "Suc first + (i - Suc d_first) = first + (i - d_first)"
      using Suc.prems(2) by arith
    with 5 Suc.prems show ?thesis unfolding step ih by (auto simp: nth_list_update)
  qed
qed

lemma length_move_backward_loop:
  "length (move_backward_loop moved buf lst d_lst n) = length buf"
  by (induction n arbitrary: buf lst d_lst) simp_all

lemma nth_move_backward_loop:
  "i < length buf \<Longrightarrow> n \<le> lst \<Longrightarrow> lst < d_lst \<Longrightarrow> d_lst \<le> length buf \<Longrightarrow>
   move_backward_loop moved buf lst d_lst n ! i =
     (if d_lst - n \<le> i \<and> i < d_lst then buf ! (i - (d_lst - lst))
      else if lst - n \<le> i \<and> i < lst then moved (buf ! i)
      else buf ! i)"
proof (induction n arbitrary: buf lst d_lst)
  case 0
  then show ?case by auto
next
  case (Suc n)
  let ?buf = "(buf[d_lst - 1 := buf ! (lst - 1)])[lst - 1 := moved (buf ! (lst - 1))]"
  have ih: "move_backward_loop moved ?buf (lst - 1) (d_lst - 1) n ! i =
     (if d_lst - 1 - n \<le> i \<and> i < d_lst - 1 then ?buf ! (i - (d_lst - 1 - (lst - 1)))
      else if lst - 1 - n \<le> i \<and> i < lst - 1 then moved (?buf ! i)
      else ?buf ! i)"
    using Suc.prems by (intro Suc.IH) auto
  have step: "move_backward_loop moved buf lst d_lst (Suc n) =
      move_backward_loop moved ?buf (lst - 1) (d_lst - 1) n"
    by simp
  have ne: "lst - 1 \<noteq> d_lst - 1" "lst - 1 < length buf" "d_lst - 1 < length buf"
    using Suc.prems by auto
  have sh: "d_lst - 1 - (lst - 1) = d_lst - lst"
    using Suc.prems by arith
  let ?A' = "d_lst - 1 - n \<le> i \<and> i < d_lst - 1" and ?B' = "lst - 1 - n \<le> i \<and> i < lst - 1"
  let ?A = "d_lst - Suc n \<le> i \<and> i < d_lst" and ?B = "lst - Suc n \<le> i \<and> i < lst"
  consider (dst) "?A'" | (top) "i = d_lst - 1" | (src) "\<not> ?A'" "?B'"
    | (mid) "i = lst - 1" "\<not> ?A'"
    | (out) "\<not> ?A'" "\<not> ?B'" "i \<noteq> d_lst - 1" "i \<noteq> lst - 1"
    by blast
  then show ?case
  proof cases
    case dst
    have "i - (d_lst - lst) < lst - 1"
      using dst Suc.prems by arith
    then have b: "?buf ! (i - (d_lst - lst)) = buf ! (i - (d_lst - lst))"
      using ne Suc.prems by (simp add: nth_list_update)
    have "?A"
      using dst by arith
    then have c: "?A' = True" "?A = True"
      using dst by simp_all
    show ?thesis
      unfolding step ih sh c by (simp only: if_True b)
  next
    case top
    have b: "?buf ! i = buf ! (i - (d_lst - lst))"
    proof -
      have "i - (d_lst - lst) = lst - 1"
        using top Suc.prems by arith
      then show ?thesis
        using top ne by (simp add: nth_list_update)
    qed
    have "\<not> ?A'" "\<not> ?B'" "?A"
      using top Suc.prems by arith+
    then have c: "?A' = False" "?B' = False" "?A = True"
      by simp_all
    show ?thesis
      unfolding step ih c by (simp only: if_True if_False b)
  next
    case src
    have "i \<noteq> d_lst - 1" "i \<noteq> lst - 1"
      using src Suc.prems by arith+
    then have b: "?buf ! i = buf ! i"
      by (simp add: nth_list_update)
    have "\<not> ?A" "?B"
      using src Suc.prems by arith+
    then have c: "?A' = False" "?B' = True" "?A = False" "?B = True"
      using src by simp_all
    show ?thesis
      unfolding step ih c by (simp only: if_True if_False b)
  next
    case mid
    have b: "?buf ! i = moved (buf ! i)"
      using mid ne by (simp add: nth_list_update)
    have "\<not> ?B'" "\<not> ?A" "?B"
      using mid Suc.prems by arith+
    then have c: "?A' = False" "?B' = False" "?A = False" "?B = True"
      using mid by simp_all
    show ?thesis
      unfolding step ih c by (simp only: if_True if_False b)
  next
    case out
    have b: "?buf ! i = buf ! i"
      using out by (simp add: nth_list_update)
    have "\<not> ?A" "\<not> ?B"
      using out Suc.prems by arith+
    then have c: "?A' = False" "?B' = False" "?A = False" "?B = False"
      using out by simp_all
    show ?thesis
      unfolding step ih c by (simp only: if_True if_False b)
  qed
qed

subsection \<open>Reserve and PushBack\<close>

lemma length_ArrayPtr: "length (ArrayPtr fresh n) = n"
  by (simp add: ArrayPtr_def)

lemma take_copy_loop:
  assumes "n \<le> length src" and "n \<le> length dst"
  shows "take n (copy_loop src 0 dst 0 n) = take n src"
proof (rule nth_equalityI)
  show "length (take n (copy_loop src 0 dst 0 n)) = length (take n src)"
    using assms by (simp add: length_copy_loop)
next
  fix i
  assume "i < length (take n (copy_loop src 0 dst 0 n))"
  then have "i < n" and "i < length dst"
    using assms by (simp_all add: length_copy_loop)
  then show "take n (copy_loop src 0 dst 0 n) ! i = take n src ! i"
    by (simp add: nth_copy_loop)
qed

lemma valid_allocated: "valid v \<Longrightarrow> allocated v"
  by (simp add: valid_def allocated_def)

lemma allocated_live_range: "allocated v \<Longrightarrow> live_range v = Inr (live v)"
  by (simp add: allocated_def live_range_def)

lemma allocated_length_live: "allocated v \<Longrightarrow> length (live v) = m_size v"
  by (simp add: allocated_def live_def)

lemma length_live: "valid v \<Longrightarrow> length (live v) = m_size v"
  by (simp add: valid_def live_def)

lemma Reserve_grow:
  assumes "allocated v" and "m_size v \<le> n" and "m_capacity v \<le> n"
  shows "Reserve fresh n v =
           Inr (v\<lparr>m_raw_ptr := copy_loop (m_raw_ptr v) 0 (ArrayPtr fresh n) 0 (m_size v),
                  m_capacity := n\<rparr>)"
  using assms
  by (simp add: Reserve_def std_copy_def vbegin_def vend_def allocated_def length_ArrayPtr)

lemma Reserve_keep: "n < m_capacity v \<Longrightarrow> Reserve fresh n v = Inr v"
  by (simp add: Reserve_def)

text \<open>\<open>Reserve\<close> wherever the live range is allocated and \<open>size <= capacity\<close>; a call that
  reallocates establishes the full invariant.\<close>

lemma Reserve_allocated:
  assumes "allocated v" and "m_size v \<le> m_capacity v"
  shows "\<exists>v'. Reserve fresh n v = Inr v' \<and> allocated v' \<and> m_size v' \<le> m_capacity v'
           \<and> m_size v' = m_size v \<and> live v' = live v \<and> m_capacity v' = max n (m_capacity v)
           \<and> (n < m_capacity v \<longrightarrow> v' = v) \<and> (m_capacity v \<le> n \<longrightarrow> valid v')"
proof (cases "m_capacity v \<le> n")
  case True
  let ?v' = "v\<lparr>m_raw_ptr := copy_loop (m_raw_ptr v) 0 (ArrayPtr fresh n) 0 (m_size v),
                m_capacity := n\<rparr>"
  have sz: "m_size v \<le> length (m_raw_ptr v)" "m_size v \<le> n"
    using assms True by (simp_all add: allocated_def)
  have r: "Reserve fresh n v = Inr ?v'"
    using assms(1) sz(2) True by (rule Reserve_grow)
  have "valid ?v'"
    using sz by (simp add: valid_def length_copy_loop length_ArrayPtr)
  moreover have "live ?v' = live v"
    using sz by (simp add: live_def take_copy_loop length_ArrayPtr)
  ultimately show ?thesis
    using r True valid_allocated [of ?v'] by (simp add: max_def valid_def)
next
  case False
  then show ?thesis
    using assms by (simp add: Reserve_keep max_def)
qed

lemma Reserve_valid:
  assumes "valid v"
  shows "\<exists>v'. Reserve fresh n v = Inr v' \<and> valid v' \<and> m_size v' = m_size v
           \<and> live v' = live v \<and> m_capacity v' = max n (m_capacity v)
           \<and> (n < m_capacity v \<longrightarrow> v' = v)"
proof -
  have "allocated v" "m_size v \<le> m_capacity v"
    using assms by (simp_all add: valid_def allocated_def)
  from Reserve_allocated [OF this, of fresh n]
  obtain v' where r: "Reserve fresh n v = Inr v'" "m_size v' = m_size v" "live v' = live v"
    "m_capacity v' = max n (m_capacity v)" "n < m_capacity v \<longrightarrow> v' = v"
    "m_capacity v \<le> n \<longrightarrow> valid v'"
    by blast
  have "valid v'"
    using r(5,6) assms by (cases "m_capacity v \<le> n") auto
  with r show ?thesis
    by simp
qed

lemma slot_assign_External:
  "slot_assign moved buf index released (External x) = buf_write buf index x"
  by (simp add: slot_assign_def)

lemma write_at_size:
  assumes "valid v" and "m_size v < m_capacity v"
  shows "\<exists>v'. (case slot_assign moved (m_raw_ptr v) (m_size v) released (External x) of
                 Inl e \<Rightarrow> Inl e
               | Inr items \<Rightarrow> Inr (v\<lparr>m_raw_ptr := items, m_size := m_size v + 1\<rparr>)) = Inr v'
           \<and> valid v' \<and> m_size v' = m_size v + 1 \<and> live v' = live v @ [x]
           \<and> m_capacity v' = m_capacity v"
proof -
  have lt: "m_size v < length (m_raw_ptr v)"
    using assms by (simp add: valid_def)
  have "take (Suc (m_size v)) ((m_raw_ptr v)[m_size v := x]) = take (m_size v) (m_raw_ptr v) @ [x]"
    using lt by (simp add: take_Suc_conv_app_nth)
  then show ?thesis
    using assms lt by (simp add: slot_assign_External buf_write_def valid_def live_def)
qed

text \<open>\<open>PushBack\<close> of a value that is not a slot of the vector, on a valid vector.\<close>

lemma PushBack_valid:
  assumes "valid v"
  shows "\<exists>v'. PushBack fresh moved (External x) v = Inr v' \<and> valid v'
           \<and> m_size v' = m_size v + 1 \<and> live v' = live v @ [x]
           \<and> m_capacity v' =
               (if m_size v < m_capacity v then m_capacity v else max 1 (2 * m_capacity v))"
proof (cases "m_size v < m_capacity v")
  case True
  from write_at_size [OF assms True, where moved = moved and released = False and x = x] True
  show ?thesis
    by (simp add: PushBack_def)
next
  case False
  from Reserve_valid [OF assms, of fresh "max 1 (2 * m_capacity v)"]
  obtain v1 where r: "Reserve fresh (max 1 (2 * m_capacity v)) v = Inr v1"
    and v1: "valid v1" "m_size v1 = m_size v" "live v1 = live v"
      "m_capacity v1 = max (max 1 (2 * m_capacity v)) (m_capacity v)"
    by blast
  have cap: "m_capacity v1 = max 1 (2 * m_capacity v)"
    using v1(4) by (simp add: max_def)
  have "m_size v1 < m_capacity v1"
    using assms v1(2) cap by (simp add: valid_def max_def)
  from write_at_size [OF v1(1) this, where moved = moved and x = x
      and released = "Reserve_reallocates (max 1 (2 * m_capacity v)) v"] False r v1 cap
  show ?thesis
    by (simp add: PushBack_def)
qed

lemma PushBack_all_valid:
  "valid v \<Longrightarrow>
   \<exists>v'. PushBack_all fresh moved (map External xs) v = Inr v' \<and> valid v'
      \<and> m_size v' = m_size v + length xs \<and> live v' = live v @ xs"
proof (induction xs arbitrary: v)
  case Nil
  then show ?case by simp
next
  case (Cons x xs)
  from PushBack_valid [OF Cons.prems, of fresh moved x]
  obtain v1 where p: "PushBack fresh moved (External x) v = Inr v1" and v1: "valid v1"
    "m_size v1 = m_size v + 1" "live v1 = live v @ [x]"
    by blast
  from Cons.IH [OF v1(1)]
  obtain v' where "PushBack_all fresh moved (map External xs) v1 = Inr v'" "valid v'"
    "m_size v' = m_size v1 + length xs" "live v' = live v1 @ xs"
    by blast
  with p v1 show ?case by simp
qed

text \<open>\<open>PushBack\<close> of one of the vector's own elements (\<open>v.PushBack(v[k])\<close>). With spare
  capacity the element is appended. On a full vector \<open>Reserve\<close> releases the allocation
  the reference points into before the assignment reads it.\<close>

lemma PushBack_Slot_room:
  assumes "valid v" and "m_size v < m_capacity v" and "k < m_size v"
  shows "\<exists>v'. PushBack fresh moved (Slot k) v = Inr v' \<and> valid v'
           \<and> m_size v' = m_size v + 1 \<and> live v' = live v @ [live v ! k]"
proof -
  have lt: "m_size v < length (m_raw_ptr v)" "k < length (m_raw_ptr v)"
    using assms by (simp_all add: valid_def)
  have "take (Suc (m_size v)) ((m_raw_ptr v)[m_size v := m_raw_ptr v ! k])
          = take (m_size v) (m_raw_ptr v) @ [m_raw_ptr v ! k]"
    using lt by (simp add: take_Suc_conv_app_nth)
  then show ?thesis
    using assms lt by (simp add: PushBack_def slot_assign_def valid_def live_def)
qed

lemma PushBack_Slot_full:
  assumes "valid v" and "\<not> m_size v < m_capacity v"
  shows "PushBack fresh moved (Slot k) v = Inl UndefinedBehaviour"
    and "PushBack fresh moved (Moved_slot k) v = Inl UndefinedBehaviour"
proof -
  from Reserve_valid [OF assms(1), of fresh "max 1 (2 * m_capacity v)"]
  obtain v1 where r: "Reserve fresh (max 1 (2 * m_capacity v)) v = Inr v1"
    by blast
  have d: "Reserve_reallocates (max 1 (2 * m_capacity v)) v"
    by (simp add: Reserve_reallocates_def max_def)
  show "PushBack fresh moved (Slot k) v = Inl UndefinedBehaviour"
    using assms(2) r d by (simp add: PushBack_def slot_assign_def)
  show "PushBack fresh moved (Moved_slot k) v = Inl UndefinedBehaviour"
    using assms(2) r d by (simp add: PushBack_def slot_assign_def)
qed

subsection \<open>Insert and Erase\<close>

lemma shift_right:
  assumes "pos \<le> sz" and "sz < length buf" and "i < length buf"
  shows "move_backward_loop moved buf sz (Suc sz) (sz - pos) ! i =
           (if pos < i \<and> i \<le> sz then buf ! (i - 1)
            else if i = pos \<and> pos < sz then moved (buf ! i)
            else buf ! i)"
proof -
  have "move_backward_loop moved buf sz (Suc sz) (sz - pos) ! i =
          (if Suc sz - (sz - pos) \<le> i \<and> i < Suc sz then buf ! (i - (Suc sz - sz))
           else if sz - (sz - pos) \<le> i \<and> i < sz then moved (buf ! i)
           else buf ! i)"
    using assms by (intro nth_move_backward_loop) auto
  moreover have "Suc sz - (sz - pos) = Suc pos" "sz - (sz - pos) = pos"
    using assms(1) by arith+
  ultimately show ?thesis
    by (auto simp: less_Suc_eq_le Suc_le_eq)
qed

lemma insert_shape:
  assumes "pos \<le> sz" and "sz < length b" and "length b = length buf"
    and low: "\<And>i. i < pos \<Longrightarrow> b ! i = buf ! i"
    and high: "\<And>i. pos < i \<Longrightarrow> i \<le> sz \<Longrightarrow> b ! i = buf ! (i - 1)"
  shows "take (Suc sz) (b[pos := x]) = take pos (take sz buf) @ x # drop pos (take sz buf)"
proof (rule nth_equalityI)
  show "length (take (Suc sz) (b[pos := x])) =
        length (take pos (take sz buf) @ x # drop pos (take sz buf))"
    using assms(1-3) by simp
next
  fix i
  assume "i < length (take (Suc sz) (b[pos := x]))"
  then have i: "i \<le> sz"
    using assms(2) by simp
  have lp: "length (take pos (take sz buf)) = pos"
    using assms(1-3) by simp
  consider "i < pos" | "i = pos" | "pos < i" by arith
  then show "take (Suc sz) (b[pos := x]) ! i =
             (take pos (take sz buf) @ x # drop pos (take sz buf)) ! i"
  proof cases
    case 1
    then show ?thesis
      using i assms(1-3) low [OF 1] by (simp add: nth_append lp)
  next
    case 2
    then show ?thesis
      using i assms(1-3) by (simp add: nth_append lp)
  next
    case 3
    then obtain k where k: "i = pos + Suc k" 
      using less_iff_Suc_add by auto
    have "(take pos (take sz buf) @ x # drop pos (take sz buf)) ! i = buf ! (pos + k)"
      using k i assms(1-3) by (simp add: nth_append lp)
    moreover have "take (Suc sz) (b[pos := x]) ! i = buf ! (i - 1)"
      using 3 i assms(2) high [OF 3 i] by simp
    ultimately show ?thesis
      using k by simp
  qed
qed

lemma open_gap:
  assumes "valid v" and "pos \<le> m_size v" and "m_size v < m_capacity v"
  shows "\<exists>items. std_move_backward moved (m_raw_ptr v) pos (vend v) (m_size v + 1) = Inr items
           \<and> length items = length (m_raw_ptr v)
           \<and> take (Suc (m_size v)) (items[pos := x])
               = take pos (live v) @ x # drop pos (live v)"
proof -
  let ?buf = "m_raw_ptr v" and ?sz = "m_size v"
  let ?items = "move_backward_loop moved ?buf ?sz (Suc ?sz) (?sz - pos)"
  have lt: "?sz < length ?buf"
    using assms by (simp add: valid_def)
  have r: "std_move_backward moved ?buf pos (vend v) (?sz + 1) = Inr ?items"
    using assms lt by (simp add: std_move_backward_def vend_def)
  have len: "length ?items = length ?buf"
    by (simp add: length_move_backward_loop)
  have "take (Suc ?sz) (?items[pos := x]) = take pos (take ?sz ?buf) @ x # drop pos (take ?sz ?buf)"
  proof (rule insert_shape)
    show "pos \<le> ?sz" by (rule assms(2))
    show "?sz < length ?items" using lt len by simp
    show "length ?items = length ?buf" by (rule len)
  next
    fix i assume "i < pos"
    then show "?items ! i = ?buf ! i"
      using assms(2) lt by (simp add: shift_right)
  next
    fix i assume "pos < i" "i \<le> ?sz"
    then show "?items ! i = ?buf ! (i - 1)"
      using assms(2) lt by (simp add: shift_right)
  qed
  then show ?thesis
    using r len by (simp add: live_def)
qed

lemma live_update: "live (v\<lparr>m_raw_ptr := items, m_size := n\<rparr>) = take n items"
  by (simp add: live_def)

lemma valid_update:
  "valid (v\<lparr>m_raw_ptr := items, m_size := n\<rparr>)
     = (n \<le> m_capacity v \<and> m_capacity v = length items)"
  by (simp add: valid_def)

lemma gap_then_write:
  assumes "valid v" and "pos \<le> m_size v" and "m_size v < m_capacity v"
  shows "\<exists>v'. (case std_move_backward moved (m_raw_ptr v) pos (vend v) (m_size v + 1) of
                 Inl e \<Rightarrow> Inl e
               | Inr items \<Rightarrow>
                   (case slot_assign moved items pos released (External x) of Inl e \<Rightarrow> Inl e
                    | Inr items' \<Rightarrow> Inr (pos, v\<lparr>m_raw_ptr := items', m_size := m_size v + 1\<rparr>)))
               = Inr (pos, v')
           \<and> valid v' \<and> m_size v' = m_size v + 1 \<and> m_capacity v' = m_capacity v
           \<and> live v' = take pos (live v) @ x # drop pos (live v)"
proof -
  from open_gap [OF assms, of moved x]
  obtain items where g:
    "std_move_backward moved (m_raw_ptr v) pos (vend v) (m_size v + 1) = Inr items"
    "length items = length (m_raw_ptr v)"
    "take (Suc (m_size v)) (items[pos := x]) = take pos (live v) @ x # drop pos (live v)"
    by blast
  let ?v' = "v\<lparr>m_raw_ptr := items[pos := x], m_size := m_size v + 1\<rparr>"
  have p: "pos < length items"
    using assms g(2) by (simp add: valid_def)
  have "valid ?v'"
    using assms g(2) by (simp add: valid_def)
  moreover have "live ?v' = take pos (live v) @ x # drop pos (live v)"
    using g(3) by (simp add: live_update)
  ultimately show ?thesis
    using g(1) p by (simp add: slot_assign_External buf_write_def)
qed

lemma VectorMove_write:
  assumes "valid v" and "pos \<le> m_size v"
  shows "\<exists>v'. (case VectorMove fresh moved pos v of Inl e \<Rightarrow> Inl e
               | Inr (number_pos, released, v1) \<Rightarrow>
                   (case slot_assign moved (m_raw_ptr v1) number_pos released (External x) of
                      Inl e \<Rightarrow> Inl e
                    | Inr items \<Rightarrow> Inr (number_pos, v1\<lparr>m_raw_ptr := items\<rparr>))) = Inr (pos, v')
           \<and> valid v' \<and> m_size v' = m_size v + 1
           \<and> live v' = take pos (live v) @ x # drop pos (live v)
           \<and> m_capacity v' =
               (if m_size v < m_capacity v then m_capacity v
                else if m_capacity v = 0 then 1 else 2 * m_capacity v)"
proof -
  let ?call = "case VectorMove fresh moved pos v of Inl e \<Rightarrow> Inl e
               | Inr (number_pos, released, v1) \<Rightarrow>
                   (case slot_assign moved (m_raw_ptr v1) number_pos released (External x) of
                      Inl e \<Rightarrow> Inl e
                    | Inr items \<Rightarrow> Inr (number_pos, v1\<lparr>m_raw_ptr := items\<rparr>))"
  consider (room) "m_size v < m_capacity v"
    | (first) "\<not> m_size v < m_capacity v" "m_capacity v = 0"
    | (grow) "\<not> m_size v < m_capacity v" "m_capacity v \<noteq> 0"
    by blast
  then show ?thesis
  proof cases
    case room
    from gap_then_write [OF assms room, where moved = moved and released = False and x = x]
    obtain v' where g: "(case std_move_backward moved (m_raw_ptr v) pos (vend v) (m_size v + 1) of
                 Inl e \<Rightarrow> Inl e
               | Inr items \<Rightarrow>
                   (case slot_assign moved items pos False (External x) of Inl e \<Rightarrow> Inl e
                    | Inr items' \<Rightarrow> Inr (pos, v\<lparr>m_raw_ptr := items', m_size := m_size v + 1\<rparr>)))
               = Inr (pos, v')"
      and v': "valid v'" "m_size v' = m_size v + 1" "m_capacity v' = m_capacity v"
        "live v' = take pos (live v) @ x # drop pos (live v)"
      by blast
    have "?call = Inr (pos, v')"
      using g room by (auto simp: VectorMove_def vbegin_def split: sum.splits)
    then show ?thesis
      using v' room by simp
  next
    case first
    then have z: "m_size v = 0" "pos = 0"
      using assms by (simp_all add: valid_def)
    from Reserve_valid [OF assms(1), of fresh 1]
    obtain v1 where r: "Reserve fresh 1 v = Inr v1" "valid v1" "m_size v1 = m_size v"
      "m_capacity v1 = max 1 (m_capacity v)"
      by blast
    then have "length (m_raw_ptr v1) = 1"
      using first by (simp add: valid_def)
    then obtain y where y: "m_raw_ptr v1 = [y]"
      by (cases "m_raw_ptr v1") auto
    show ?thesis
      using r first z y
      by (simp add: VectorMove_def vbegin_def slot_assign_External buf_write_def valid_def
          live_def)
  next
    case grow
    from Reserve_valid [OF assms(1), of fresh "2 * m_capacity v"]
    obtain v1 where r: "Reserve fresh (2 * m_capacity v) v = Inr v1" "valid v1"
      "m_size v1 = m_size v" "live v1 = live v"
      "m_capacity v1 = max (2 * m_capacity v) (m_capacity v)"
      by blast
    have cap: "m_capacity v1 = 2 * m_capacity v"
      using r(5) by (simp add: max_def)
    have room1: "m_size v1 < m_capacity v1"
      using assms grow r(3) cap by (simp add: valid_def)
    have pos1: "pos \<le> m_size v1"
      using assms r(3) by simp
    let ?rel = "Reserve_reallocates (2 * m_capacity v) v"
    from gap_then_write [OF r(2) pos1 room1, where moved = moved and released = ?rel and x = x]
    obtain v' where g: "(case std_move_backward moved (m_raw_ptr v1) pos (vend v1) (m_size v1 + 1) of
                 Inl e \<Rightarrow> Inl e
               | Inr items \<Rightarrow>
                   (case slot_assign moved items pos ?rel (External x) of Inl e \<Rightarrow> Inl e
                    | Inr items' \<Rightarrow> Inr (pos, v1\<lparr>m_raw_ptr := items', m_size := m_size v1 + 1\<rparr>)))
               = Inr (pos, v')"
      and v': "valid v'" "m_size v' = m_size v1 + 1" "m_capacity v' = m_capacity v1"
        "live v' = take pos (live v1) @ x # drop pos (live v1)"
      by blast
    have "?call = Inr (pos, v')"
      using g grow r(1) by (auto simp: VectorMove_def vbegin_def split: sum.splits)
    then show ?thesis
      using v' grow r(3,4) cap by simp
  qed
qed

text \<open>\<open>Insert\<close> of a value that is not a slot of the vector, at a position
  \<open>0 <= pos <= size\<close> of a valid vector, in every build where the assertion holds or is
  compiled out: the value is inserted at \<open>pos\<close>.\<close>

lemma Insert_valid:
  assumes "valid v" and "pos \<le> m_size v" and "dbg \<longrightarrow> m_size v \<noteq> 0"
  shows "\<exists>v'. Insert dbg fresh moved pos (External x) v = Inr (pos, v') \<and> valid v'
           \<and> m_size v' = m_size v + 1
           \<and> live v' = take pos (live v) @ x # drop pos (live v)
           \<and> m_capacity v' =
               (if m_size v < m_capacity v then m_capacity v
                else if m_capacity v = 0 then 1 else 2 * m_capacity v)"
proof -
  have "\<not> (dbg \<and> \<not> (pos > vbegin v \<or> pos < vend v))"
    using assms(3) by (auto simp: vbegin_def vend_def)
  then have "Insert dbg fresh moved pos (External x) v =
      (case VectorMove fresh moved pos v of Inl e \<Rightarrow> Inl e
       | Inr (number_pos, released, v1) \<Rightarrow>
           (case slot_assign moved (m_raw_ptr v1) number_pos released (External x) of
              Inl e \<Rightarrow> Inl e
            | Inr items \<Rightarrow> Inr (number_pos, v1\<lparr>m_raw_ptr := items\<rparr>)))"
    unfolding Insert_def by (rule if_not_P)
  with VectorMove_write [OF assms(1,2), where fresh = fresh and moved = moved and x = x]
  show ?thesis
    by simp
qed

lemma Insert_debug_empty:
  "m_size v = 0 \<Longrightarrow> Insert True fresh moved 0 x v = Inl AssertionFailed"
  by (simp add: Insert_def vbegin_def vend_def)

text \<open>\<open>Insert\<close> of one of the vector's own elements (\<open>v.Insert(p, v[k])\<close>) reads the
  reference after \<open>VectorMove\<close>. On a full vector the allocation it points into has been
  released. With spare capacity the slot has been shifted: from \<open>{1, 2, 3}\<close> with capacity
  4, \<open>Insert(begin(), v[1])\<close> inserts 1, the new content of slot 1, not 2.\<close>

lemma Insert_Slot_full:
  assumes "valid v" and "pos \<le> m_size v" and "\<not> m_size v < m_capacity v"
  shows "Insert False fresh moved pos (Slot k) v = Inl UndefinedBehaviour"
proof (cases "m_capacity v = 0")
  case True
  from Reserve_valid [OF assms(1), of fresh 1]
  obtain v1 where "Reserve fresh 1 v = Inr v1"
    by blast
  then show ?thesis
    using assms(3) True
    by (simp add: Insert_def VectorMove_def Reserve_reallocates_def slot_assign_def)
next
  case False
  from Reserve_valid [OF assms(1), of fresh "2 * m_capacity v"]
  obtain v1 where r: "Reserve fresh (2 * m_capacity v) v = Inr v1" "valid v1"
    "m_size v1 = m_size v" "m_capacity v1 = max (2 * m_capacity v) (m_capacity v)"
    by blast
  have "m_size v1 < m_capacity v1" "pos \<le> m_size v1"
    using assms r(3,4) False by (simp_all add: valid_def max_def)
  from open_gap [OF r(2) this(2) this(1), of moved "fresh 0"]
  obtain items where
    "std_move_backward moved (m_raw_ptr v1) pos (vend v1) (m_size v1 + 1) = Inr items"
    by blast
  then show ?thesis
    using assms(3) False r(1)
    by (simp add: Insert_def VectorMove_def vbegin_def Reserve_reallocates_def slot_assign_def)
qed

lemma Insert_Slot_shifted:
  "Insert False (\<lambda>i. 0) (\<lambda>x. x) 0 (Slot 1) \<lparr>m_size = 3, m_capacity = 4, m_raw_ptr = [1, 2, 3, 0 :: int]\<rparr>
     = Inr (0, \<lparr>m_size = 4, m_capacity = 4, m_raw_ptr = [1, 1, 2, 3]\<rparr>)"
  by (simp add: Insert_def VectorMove_def std_move_backward_def vbegin_def vend_def
      slot_assign_def numeral_eq_Suc)

lemma shift_left:
  assumes "pos < sz" and "sz \<le> length buf" and "i < length buf"
  shows "move_loop moved buf (Suc pos) pos (sz - Suc pos) ! i =
           (if pos \<le> i \<and> Suc i < sz then buf ! Suc i
            else if Suc pos \<le> i \<and> i < sz then moved (buf ! i)
            else buf ! i)"
proof -
  have "move_loop moved buf (Suc pos) pos (sz - Suc pos) ! i =
          (if pos \<le> i \<and> i < pos + (sz - Suc pos) then buf ! (Suc pos + (i - pos))
           else if Suc pos \<le> i \<and> i < Suc pos + (sz - Suc pos) then moved (buf ! i)
           else buf ! i)"
    using assms by (intro nth_move_loop) auto
  moreover have "i < pos + (sz - Suc pos) \<longleftrightarrow> Suc i < sz"
    "Suc pos + (sz - Suc pos) = sz"
    using assms(1) by arith+
  ultimately show ?thesis
    by auto
qed

lemma erase_shape:
  assumes "pos < sz" and "sz \<le> length buf" and "length b = length buf"
    and low: "\<And>i. i < pos \<Longrightarrow> b ! i = buf ! i"
    and high: "\<And>i. pos \<le> i \<Longrightarrow> Suc i < sz \<Longrightarrow> b ! i = buf ! Suc i"
  shows "take (sz - 1) b = take pos (take sz buf) @ drop (Suc pos) (take sz buf)"
proof (rule nth_equalityI)
  show "length (take (sz - 1) b) = length (take pos (take sz buf) @ drop (Suc pos) (take sz buf))"
    using assms(1-3) by simp
next
  fix i
  assume "i < length (take (sz - 1) b)"
  then have i: "Suc i < sz"
    using assms(1-3) by simp
  have lp: "length (take pos (take sz buf)) = pos"
    using assms(1-3) by simp
  show "take (sz - 1) b ! i = (take pos (take sz buf) @ drop (Suc pos) (take sz buf)) ! i"
  proof (cases "i < pos")
    case True
    then show ?thesis
      using i assms(1-3) low [OF True] by (simp add: nth_append lp)
  next
    case False
    then have pi: "pos \<le> i" by simp
    then obtain k where k: "i = pos + k"
      using le_iff_add by auto
    have "(take pos (take sz buf) @ drop (Suc pos) (take sz buf)) ! i = buf ! Suc i"
      using k i assms(1-3) by (simp add: nth_append lp)
    moreover have "take (sz - 1) b ! i = buf ! Suc i"
      using i high [OF pi i] by simp
    ultimately show ?thesis
      by simp
  qed
qed

lemma Erase_valid:
  assumes "valid v" and "pos < m_size v"
  shows "\<exists>v'. Erase dbg moved pos v = Inr (pos, v') \<and> valid v' \<and> m_size v' = m_size v - 1
           \<and> m_capacity v' = m_capacity v
           \<and> live v' = take pos (live v) @ drop (Suc pos) (live v)"
proof -
  let ?buf = "m_raw_ptr v" and ?sz = "m_size v"
  let ?items = "move_loop moved ?buf (Suc pos) pos (?sz - Suc pos)"
  let ?v' = "v\<lparr>m_raw_ptr := ?items, m_size := ?sz - 1\<rparr>"
  have le: "?sz \<le> length ?buf"
    using assms by (simp add: valid_def)
  have len: "length ?items = length ?buf"
    by (simp add: length_move_loop)
  have m: "std_move moved ?buf (pos + 1) (vend v) pos = Inr ?items"
    using assms le by (simp add: std_move_def vend_def)
  have d: "dec_size_t ?sz = ?sz - 1"
    using assms(2) by (simp add: dec_size_t_def)
  have e: "Erase dbg moved pos v = Inr (pos, ?v')"
    using assms(2) m d by (simp add: Erase_def vbegin_def vend_def)
  have "take (?sz - 1) ?items = take pos (take ?sz ?buf) @ drop (Suc pos) (take ?sz ?buf)"
  proof (rule erase_shape)
    show "pos < ?sz" by (rule assms(2))
    show "?sz \<le> length ?buf" by (rule le)
    show "length ?items = length ?buf" by (rule len)
  next
    fix i assume "i < pos"
    then show "?items ! i = ?buf ! i"
      using assms(2) le by (simp add: shift_left)
  next
    fix i assume "pos \<le> i" "Suc i < ?sz"
    then show "?items ! i = ?buf ! Suc i"
      using assms(2) le by (simp add: shift_left)
  qed
  then have "live ?v' = take pos (live v) @ drop (Suc pos) (live v)"
    by (simp add: live_def)
  moreover have "valid ?v'"
    using assms len by (auto simp: valid_def)
  ultimately show ?thesis
    using e by simp
qed

lemma Insert_then_Erase_valid:
  assumes "valid v" and "pos \<le> m_size v" and "dbg \<longrightarrow> m_size v \<noteq> 0"
  shows "\<exists>v'. Insert_then_Erase dbg fresh moved pos (External x) v = Inr (pos, v') \<and> valid v'
           \<and> m_size v' = m_size v \<and> live v' = live v"
proof -
  from Insert_valid [OF assms, of fresh moved x]
  obtain v1 where i: "Insert dbg fresh moved pos (External x) v = Inr (pos, v1)" "valid v1"
    "m_size v1 = m_size v + 1" "live v1 = take pos (live v) @ x # drop pos (live v)"
    by blast
  have "pos < m_size v1"
    using assms(2) i(3) by simp
  from Erase_valid [OF i(2) this, of dbg moved]
  obtain v' where e: "Erase dbg moved pos v1 = Inr (pos, v')" "valid v'"
    "m_size v' = m_size v1 - 1" "live v' = take pos (live v1) @ drop (Suc pos) (live v1)"
    by blast
  have "length (take pos (live v)) = pos"
    using assms(1,2) by (simp add: length_live)
  then have "live v' = live v"
    using e(4) i(4) by simp
  then show ?thesis
    using i e by (simp add: Insert_then_Erase_def)
qed

subsection \<open>Resize\<close>

lemma take_fill_loop:
  assumes "sz \<le> n" and "n \<le> length buf"
  shows "take n (fill_loop buf sz (n - sz) x) = take sz buf @ replicate (n - sz) x"
proof (rule nth_equalityI)
  show "length (take n (fill_loop buf sz (n - sz) x)) = length (take sz buf @ replicate (n - sz) x)"
    using assms by (simp add: length_fill_loop)
next
  fix i
  assume "i < length (take n (fill_loop buf sz (n - sz) x))"
  then have i: "i < n"
    by simp
  then show "take n (fill_loop buf sz (n - sz) x) ! i = (take sz buf @ replicate (n - sz) x) ! i"
    using assms by (auto simp: nth_fill_loop nth_append)
qed

lemma fill_tail:
  assumes "valid v" and "m_size v \<le> n" and "n \<le> m_capacity v"
  shows "\<exists>v'. (case std_fill (m_raw_ptr v) (vbegin v + m_size v) (vbegin v + n) dflt of
                 Inl e \<Rightarrow> Inl e
               | Inr items \<Rightarrow> Inr (v\<lparr>m_raw_ptr := items, m_size := n\<rparr>)) = Inr v'
           \<and> valid v' \<and> m_size v' = n \<and> m_capacity v' = m_capacity v
           \<and> live v' = live v @ replicate (n - m_size v) dflt"
proof -
  let ?items = "fill_loop (m_raw_ptr v) (m_size v) (n - m_size v) dflt"
  have le: "n \<le> length (m_raw_ptr v)"
    using assms by (simp add: valid_def)
  have "std_fill (m_raw_ptr v) (vbegin v + m_size v) (vbegin v + n) dflt = Inr ?items"
    using assms le by (simp add: std_fill_def vbegin_def)
  moreover have "valid (v\<lparr>m_raw_ptr := ?items, m_size := n\<rparr>)"
    using assms by (simp add: valid_def length_fill_loop)
  moreover have "live (v\<lparr>m_raw_ptr := ?items, m_size := n\<rparr>) = live v @ replicate (n - m_size v) dflt"
    using assms le by (simp add: live_def take_fill_loop)
  ultimately show ?thesis
    by simp
qed

text \<open>\<open>Resize\<close> to a size that is not below the current one.\<close>

lemma Resize_grow:
  assumes "valid v" and "m_size v \<le> n"
  shows "\<exists>v'. Resize fresh dflt n v = Inr v' \<and> valid v' \<and> m_size v' = n
           \<and> live v' = live v @ replicate (n - m_size v) dflt
           \<and> m_capacity v' =
               (if n \<le> m_capacity v then m_capacity v else max n (2 * m_capacity v))"
proof (cases "n \<le> m_capacity v")
  case True
  from fill_tail [OF assms True, of dflt] True show ?thesis
    by (auto simp: Resize_def)
next
  case False
  from Reserve_valid [OF assms(1), of fresh "max n (2 * m_capacity v)"]
  obtain v1 where r: "Reserve fresh (max n (2 * m_capacity v)) v = Inr v1" "valid v1"
    "m_size v1 = m_size v" "live v1 = live v"
    "m_capacity v1 = max (max n (2 * m_capacity v)) (m_capacity v)"
    by blast
  have cap: "m_capacity v1 = max n (2 * m_capacity v)"
    using r(5) by (simp add: max_def)
  have "m_size v1 \<le> n" "n \<le> m_capacity v1"
    using assms(2) r(3) cap by simp_all
  from fill_tail [OF r(2) this, of dflt] False r cap show ?thesis
    by (auto simp: Resize_def)
qed

text \<open>\<open>Resize\<close> to a size below the current one hands \<open>std::fill\<close> a range whose end lies
  before its start.\<close>

lemma Resize_shrink:
  assumes "valid v" and "n < m_size v"
  shows "Resize fresh dflt n v = Inl UndefinedBehaviour"
  using assms by (simp add: Resize_def std_fill_def vbegin_def valid_def)

subsection \<open>Construction, copy, swap\<close>

lemma SimpleVector_default_valid: "valid SimpleVector_default"
  by (simp add: valid_def SimpleVector_default_def)

lemma SimpleVector_reserve_valid:
  "\<exists>v. SimpleVector_reserve fresh n = Inr v \<and> valid v \<and> m_size v = 0 \<and> m_capacity v = n"
  using Reserve_valid [OF SimpleVector_default_valid, of fresh n]
  by (auto simp: SimpleVector_reserve_def SimpleVector_default_def)

lemma SimpleVector_fill_valid:
  "\<exists>v. SimpleVector_fill fresh n x = Inr v \<and> valid v \<and> m_size v = n \<and> m_capacity v = n
      \<and> live v = replicate n x"
proof -
  have "take n (fill_loop (ArrayPtr fresh n) 0 (n - 0) x) = take 0 (ArrayPtr fresh n) @ replicate (n - 0) x"
    by (rule take_fill_loop) (simp_all add: length_ArrayPtr)
  then show ?thesis
    by (simp add: SimpleVector_fill_def std_fill_def length_ArrayPtr valid_def live_def
        length_fill_loop)
qed

lemma SimpleVector_init_valid:
  "\<exists>v. SimpleVector_init fresh init = Inr v \<and> valid v \<and> m_size v = length init
      \<and> m_capacity v = length init \<and> live v = init"
proof -
  have "take (length init) (copy_loop init 0 (ArrayPtr fresh (length init)) 0 (length init))
          = take (length init) init"
    by (rule take_copy_loop) (simp_all add: length_ArrayPtr)
  then show ?thesis
    by (simp add: SimpleVector_init_def std_copy_def length_ArrayPtr valid_def live_def
        length_copy_loop)
qed

text \<open>The copy constructor, wherever the live range of the source is allocated: size and
  live elements are those of the source, the allocation has \<open>size\<close> slots, the reported
  capacity is the source's capacity.\<close>

lemma SimpleVector_copy_allocated:
  assumes "allocated v"
  shows "\<exists>c. SimpleVector_copy fresh v = Inr c \<and> allocated c \<and> m_size c = m_size v
           \<and> live c = live v \<and> length (m_raw_ptr c) = m_size v
           \<and> m_capacity c = m_capacity v"
proof -
  have le: "m_size v \<le> length (m_raw_ptr v)"
    using assms by (simp add: allocated_def)
  then have "take (m_size v) (copy_loop (m_raw_ptr v) 0 (ArrayPtr fresh (m_size v)) 0 (m_size v))
          = take (m_size v) (m_raw_ptr v)"
    by (intro take_copy_loop) (simp_all add: length_ArrayPtr)
  then show ?thesis
    using le
    by (simp add: SimpleVector_copy_def std_copy_def vbegin_def vend_def length_ArrayPtr live_def
        length_copy_loop allocated_def)
qed

text \<open>The copy of a valid source is valid only when the source has no spare capacity.\<close>

lemma SimpleVector_copy_valid_iff:
  assumes "valid v" and "SimpleVector_copy fresh v = Inr c"
  shows "valid c \<longleftrightarrow> m_capacity v = m_size v"
  using SimpleVector_copy_allocated [OF valid_allocated [OF assms(1)], of fresh] assms
  by (auto simp: valid_def)

lemma swap_valid:
  "valid a \<Longrightarrow> valid b \<Longrightarrow> valid (fst (swap a b)) \<and> valid (snd (swap a b))"
  by (simp add: swap_def valid_def)

lemma SimpleVector_move_valid:
  "valid v \<Longrightarrow> valid (fst (SimpleVector_move v)) \<and> valid (snd (SimpleVector_move v))
     \<and> live (fst (SimpleVector_move v)) = live v
     \<and> m_size (snd (SimpleVector_move v)) = 0 \<and> m_capacity (snd (SimpleVector_move v)) = 0"
  by (simp add: SimpleVector_move_def swap_def valid_def SimpleVector_default_def live_def)

lemma assign_move_valid:
  "valid a \<Longrightarrow> valid b \<Longrightarrow> valid (fst (assign_move a b)) \<and> valid (snd (assign_move a b))"
  by (simp add: assign_move_def SimpleVector_move_def swap_def valid_def SimpleVector_default_def)

lemma Clear_valid: "valid v \<Longrightarrow> valid (Clear v) \<and> m_size (Clear v) = 0"
  by (simp add: Clear_def valid_def)

subsection \<open>PopBack\<close>

lemma dec_size_t_pos: "0 < n \<Longrightarrow> dec_size_t n = n - 1"
  by (simp add: dec_size_t_def)

text \<open>In a build with assertions \<open>PopBack\<close> aborts on every non-empty vector and passes the
  assertion on the empty one, where \<open>--size_\<close> wraps around.\<close>

lemma PopBack_debug:
  "PopBack True v =
     (if m_size v = 0 then Inr (v\<lparr>m_size := 2 ^ 64 - 1\<rparr>) else Inl AssertionFailed)"
  by (simp add: PopBack_def IsEmpty_def dec_size_t_def)

text \<open>With \<open>NDEBUG\<close> the last element is dropped.\<close>

lemma PopBack_release:
  assumes "valid v" and "\<not> IsEmpty v"
  shows "\<exists>v'. PopBack False v = Inr v' \<and> valid v' \<and> m_size v' = m_size v - 1
           \<and> m_capacity v' = m_capacity v \<and> live v' = butlast (live v)"
proof -
  have "take (m_size v - 1) (m_raw_ptr v) = butlast (take (m_size v) (m_raw_ptr v))"
    using assms by (simp add: butlast_take valid_def)
  then show ?thesis
    using assms by (auto simp: PopBack_def IsEmpty_def dec_size_t_pos valid_def live_def)
qed

subsection \<open>Comparisons\<close>

lemma std_equal_same_length:
  "length xs = length ys \<Longrightarrow> std_equal xs ys = Inr (xs = ys)"
  by (induction xs ys rule: list_induct2) simp_all

lemma lexicographical_compare_lexord:
  fixes xs ys :: "('a::linorder) list"
  shows "lexicographical_compare xs ys \<longleftrightarrow> (xs, ys) \<in> lexord {(x, y). x < y}"
  by (induction xs ys rule: lexicographical_compare.induct) (auto simp: neq_Nil_conv)

lemma operator_eq_allocated:
  assumes "allocated a" and "allocated b"
  shows "operator_eq a b = Inr (m_size a = m_size b \<and> live a = live b)"
proof (cases "m_size a = m_size b")
  case True
  then have "length (live a) = length (live b)"
    using assms by (simp add: allocated_length_live)
  then show ?thesis
    using assms True
    by (simp add: operator_eq_def GetSize_def allocated_live_range std_equal_same_length)
next
  case False
  then show ?thesis
    by (simp add: operator_eq_def GetSize_def)
qed

lemma operator_lt_allocated:
  assumes "allocated a" and "allocated b"
  shows "operator_lt a b = Inr (lexicographical_compare (live a) (live b))"
  using assms by (simp add: operator_lt_def allocated_live_range)

section \<open>The claims\<close>

text \<open>
  Claim C1 says that a copy reports a capacity equal to the source's size. The copy
  constructor allocates \<open>other.size_\<close> slots but initialises \<open>capacity_\<close> with
  \<open>other.capacity_\<close>. Source: \<open>Reserve(2)\<close> on construction, then \<open>PushBack(7)\<close>, which
  gives size 1 and capacity 2. The copy has size 1, the live element 7, one allocated
  slot, and reports capacity 2, not 1.
\<close>

theorem copy_reports_source_capacity:
  "(case SimpleVector_reserve (\<lambda>i. 0) 2 of
      Inl e \<Rightarrow> Inl e
    | Inr v \<Rightarrow> PushBack (\<lambda>i. 0) (\<lambda>x. x) (External (7 :: int)) v)
      = Inr \<lparr>m_size = 1, m_capacity = 2, m_raw_ptr = [7, 0]\<rparr>
   \<and> SimpleVector_copy (\<lambda>i. 0) \<lparr>m_size = 1, m_capacity = 2, m_raw_ptr = [7, 0 :: int]\<rparr>
      = Inr \<lparr>m_size = 1, m_capacity = 2, m_raw_ptr = [7]\<rparr>
   \<and> GetSize \<lparr>m_size = 1, m_capacity = 2, m_raw_ptr = [7, 0 :: int]\<rparr> = 1
   \<and> GetCapacity \<lparr>m_size = 1, m_capacity = 2, m_raw_ptr = [7 :: int]\<rparr> = 2"
  by (simp add: SimpleVector_reserve_def SimpleVector_default_def Reserve_def PushBack_def
      SimpleVector_copy_def std_copy_def vbegin_def vend_def ArrayPtr_def slot_assign_def
      buf_write_def GetSize_def GetCapacity_def upt_rec numeral_eq_Suc)

text \<open>
  Claim C2 says that the assertion of \<open>PopBack\<close> does not fire on a non-empty vector.
  The source asserts \<open>IsEmpty()\<close>: in a build with assertions \<open>PopBack\<close> on the
  one-element vector \<open>{7}\<close> aborts.
\<close>

theorem PopBack_nonempty_asserts:
  "SimpleVector_init (\<lambda>i. 0) [7 :: int] = Inr \<lparr>m_size = 1, m_capacity = 1, m_raw_ptr = [7]\<rparr>
   \<and> \<not> IsEmpty \<lparr>m_size = 1, m_capacity = 1, m_raw_ptr = [7 :: int]\<rparr>
   \<and> PopBack True \<lparr>m_size = 1, m_capacity = 1, m_raw_ptr = [7 :: int]\<rparr> = Inl AssertionFailed"
  by (simp add: SimpleVector_init_def std_copy_def ArrayPtr_def IsEmpty_def PopBack_def
      upt_rec numeral_eq_Suc)

text \<open>
  Claim C3 says that \<open>Insert\<close> at any position \<open>0 <= p <= size\<close>, the empty vector
  included, passes its assertion and inserts. The source asserts
  \<open>pos > begin() || pos < end()\<close>, which is false for \<open>pos = begin() = end()\<close>: in a
  build with assertions \<open>Insert(begin(), 5)\<close> on a default-constructed vector aborts.
  With \<open>NDEBUG\<close> the same call inserts the value and grows the capacity from 0 to 1.
\<close>

theorem Insert_empty_asserts:
  "Insert True (\<lambda>i. 0) (\<lambda>x. x) 0 (External (5 :: int)) SimpleVector_default
       = Inl AssertionFailed
   \<and> Insert False (\<lambda>i. 0) (\<lambda>x. x) 0 (External (5 :: int)) SimpleVector_default
       = Inr (0, \<lparr>m_size = 1, m_capacity = 1, m_raw_ptr = [5]\<rparr>)"
  by (simp add: Insert_def VectorMove_def Reserve_def std_copy_def vbegin_def vend_def
      ArrayPtr_def slot_assign_def buf_write_def SimpleVector_default_def upt_rec)

text \<open>
  Claim C4 says that \<open>Resize(n)\<close> ends with size \<open>n\<close> for every \<open>n\<close> and keeps the
  elements below \<open>min(oldSize, n)\<close>. For \<open>n < size\<close> the source calls
  \<open>std::fill(begin() + size_, begin() + new_size, Type())\<close>, a range that ends before it
  starts: on the vector \<open>{1, 2, 3}\<close> the call \<open>Resize(2)\<close> has undefined behaviour.
\<close>

theorem Resize_below_size_undefined:
  "SimpleVector_init (\<lambda>i. 0) [1, 2, 3 :: int]
      = Inr \<lparr>m_size = 3, m_capacity = 3, m_raw_ptr = [1, 2, 3]\<rparr>
   \<and> Resize (\<lambda>i. 0) 0 2 \<lparr>m_size = 3, m_capacity = 3, m_raw_ptr = [1, 2, 3 :: int]\<rparr>
      = Inl UndefinedBehaviour"
  by (simp add: SimpleVector_init_def std_copy_def ArrayPtr_def Resize_def std_fill_def
      vbegin_def upt_rec numeral_eq_Suc)

text \<open>
  Claim C5. On every vector whose live range is allocated and whose size does not exceed its
  capacity (every vector that satisfies the data-model invariant, and every copy as well),
  and for every \<open>n\<close>, \<open>Reserve(n)\<close> returns normally, does not decrease \<open>GetCapacity()\<close>,
  keeps \<open>GetSize()\<close> and the values of the live elements (indices \<open>[0, size)\<close>), and for
  \<open>n < capacity\<close> it leaves the whole object as it was.
\<close>

theorem Reserve_frame:
  assumes "allocated v" and "GetSize v \<le> GetCapacity v"
  shows "\<exists>v'. Reserve fresh n v = Inr v' \<and> allocated v' \<and> GetSize v' \<le> GetCapacity v'
           \<and> GetCapacity v \<le> GetCapacity v' \<and> GetSize v' = GetSize v
           \<and> live v' = live v \<and> (n < GetCapacity v \<longrightarrow> v' = v)"
proof -
  have "m_size v \<le> m_capacity v"
    using assms(2) by (simp add: GetSize_def GetCapacity_def)
  from Reserve_allocated [OF assms(1) this, of fresh n]
  obtain v' where "Reserve fresh n v = Inr v'" "allocated v'" "m_size v' \<le> m_capacity v'"
    "m_size v' = m_size v" "live v' = live v" "m_capacity v' = max n (m_capacity v)"
    "n < m_capacity v \<longrightarrow> v' = v"
    by blast
  then show ?thesis
    by (simp add: GetCapacity_def GetSize_def)
qed

theorem Reserve_frame_witness:
  "allocated \<lparr>m_size = 1, m_capacity = 2, m_raw_ptr = [7, 0 :: int]\<rparr>
   \<and> GetSize \<lparr>m_size = 1, m_capacity = 2, m_raw_ptr = [7, 0 :: int]\<rparr>
       \<le> GetCapacity \<lparr>m_size = 1, m_capacity = 2, m_raw_ptr = [7, 0 :: int]\<rparr>
   \<and> Reserve (\<lambda>i. 0) 5 \<lparr>m_size = 1, m_capacity = 2, m_raw_ptr = [7, 0 :: int]\<rparr>
       = Inr \<lparr>m_size = 1, m_capacity = 5, m_raw_ptr = [7, 0, 0, 0, 0]\<rparr>
   \<and> (\<exists>v'. Reserve (\<lambda>i. 0) 1 \<lparr>m_size = 1, m_capacity = 2, m_raw_ptr = [7, 0 :: int]\<rparr> = Inr v'
         \<and> v' = \<lparr>m_size = 1, m_capacity = 2, m_raw_ptr = [7, 0 :: int]\<rparr>)
   \<and> (\<exists>v'. Reserve (\<lambda>i. 0) 5 \<lparr>m_size = 1, m_capacity = 2, m_raw_ptr = [7, 0 :: int]\<rparr> = Inr v'
         \<and> allocated v' \<and> 2 \<le> GetCapacity v' \<and> GetSize v' = 1 \<and> live v' = [7])"
proof -
  let ?v = "\<lparr>m_size = 1, m_capacity = 2, m_raw_ptr = [7, 0 :: int]\<rparr>"
  have h: "allocated ?v" "GetSize ?v \<le> GetCapacity ?v"
    by (simp_all add: allocated_def GetSize_def GetCapacity_def)
  have e: "Reserve (\<lambda>i. 0) 5 ?v = Inr \<lparr>m_size = 1, m_capacity = 5, m_raw_ptr = [7, 0, 0, 0, 0]\<rparr>"
    by (simp add: Reserve_def std_copy_def vbegin_def vend_def ArrayPtr_def upt_rec numeral_eq_Suc)
  have l: "live ?v = [7]" "GetCapacity ?v = 2" "GetSize ?v = 1"
    by (simp_all add: live_def GetCapacity_def GetSize_def)
  from Reserve_frame [OF h, of "\<lambda>i. 0" 1] Reserve_frame [OF h, of "\<lambda>i. 0" 5] h e l
  show ?thesis
    by auto
qed

text \<open>
  Claim C6 says that on every array every \<open>PushBack\<close> adds 1 to the size and appends the
  pushed value. Two inputs on which the code does not:
  \<^item> the copy of a vector with spare capacity (\<open>Reserve(2)\<close> on construction, \<open>PushBack(7)\<close>,
    copy construction): the copy reports capacity 2 over one slot, so \<open>PushBack(8)\<close> on it
    takes the \<open>size_ < capacity_\<close> branch and writes \<open>raw_ptr_[1]\<close> outside the allocation;
  \<^item> \<open>v.PushBack(v[0])\<close> on the full vector \<open>{7}\<close>: \<open>Reserve\<close> releases the old allocation,
    and the assignment \<open>raw_ptr_[size_] = item\<close> then reads \<open>item\<close>, a reference into it.
\<close>

theorem PushBack_undefined_on_copy_and_on_own_element:
  "(case SimpleVector_reserve (\<lambda>i. 0) 2 of
      Inl e \<Rightarrow> Inl e
    | Inr v \<Rightarrow>
        (case PushBack (\<lambda>i. 0) (\<lambda>x. x) (External (7 :: int)) v of
           Inl e \<Rightarrow> Inl e
         | Inr s \<Rightarrow>
             (case SimpleVector_copy (\<lambda>i. 0) s of
                Inl e \<Rightarrow> Inl e
              | Inr c \<Rightarrow> PushBack (\<lambda>i. 0) (\<lambda>x. x) (External 8) c)))
      = Inl UndefinedBehaviour
   \<and> SimpleVector_init (\<lambda>i. 0) [7 :: int]
      = Inr \<lparr>m_size = 1, m_capacity = 1, m_raw_ptr = [7]\<rparr>
   \<and> PushBack (\<lambda>i. 0) (\<lambda>x. x) (Slot 0) \<lparr>m_size = 1, m_capacity = 1, m_raw_ptr = [7 :: int]\<rparr>
      = Inl UndefinedBehaviour"
  by (simp add: SimpleVector_reserve_def SimpleVector_default_def SimpleVector_init_def
      Reserve_def Reserve_reallocates_def PushBack_def SimpleVector_copy_def std_copy_def
      vbegin_def vend_def ArrayPtr_def slot_assign_def buf_write_def upt_rec numeral_eq_Suc)

text \<open>
  Claim C7 says that \<open>Insert(p, x)\<close> followed by \<open>Erase(p)\<close> restores the live elements
  for every position \<open>0 <= p <= size\<close>. On a default-constructed (empty) vector and
  \<open>p = begin()\<close>, the assertion of \<open>Insert\<close> fails in a build with assertions, so the
  round trip aborts. With \<open>NDEBUG\<close> it returns the empty live range.
\<close>

theorem Insert_then_Erase_empty_asserts:
  "Insert_then_Erase True (\<lambda>i. 0) (\<lambda>x. x) 0 (External (5 :: int)) SimpleVector_default
       = Inl AssertionFailed
   \<and> Insert_then_Erase False (\<lambda>i. 0) (\<lambda>x. x) 0 (External (5 :: int)) SimpleVector_default
       = Inr (0, \<lparr>m_size = 0, m_capacity = 1, m_raw_ptr = [5]\<rparr>)"
  by (simp add: Insert_then_Erase_def Insert_def Erase_def VectorMove_def Reserve_def
      std_copy_def std_move_def vbegin_def vend_def ArrayPtr_def slot_assign_def buf_write_def
      dec_size_t_def SimpleVector_default_def upt_rec)

text \<open>
  Claim C8. For vectors \<open>a\<close>, \<open>b\<close> whose live ranges are allocated (elements of a linearly
  ordered type): \<open>a == b\<close> is true iff the sizes are equal and the live elements agree at
  every index; \<open>a != b\<close> is its negation; \<open>a < b\<close> is the lexicographic order of the live
  ranges; \<open>a <= b\<close> is \<open>!(b < a)\<close>, \<open>a > b\<close> is \<open>b < a\<close>, \<open>a >= b\<close> is \<open>!(a < b)\<close>; and a
  vector whose live range is a proper prefix of the other's (\<open>[7,7,7]\<close> against
  \<open>[7,7,7,7]\<close>) is smaller.
\<close>

theorem comparison_operators:
  fixes a b :: "('a::linorder) SimpleVector"
  assumes "allocated a" and "allocated b"
  shows "operator_eq a b = Inr (GetSize a = GetSize b \<and> (\<forall>i<GetSize a. live a ! i = live b ! i))
    \<and> operator_ne a b = Inr (\<not> (GetSize a = GetSize b \<and> (\<forall>i<GetSize a. live a ! i = live b ! i)))
    \<and> operator_lt a b = Inr ((live a, live b) \<in> lexord {(x, y). x < y})
    \<and> (\<exists>ab ba. operator_lt a b = Inr ab \<and> operator_lt b a = Inr ba
          \<and> operator_le a b = Inr (\<not> ba) \<and> operator_gt a b = Inr ba
          \<and> operator_ge a b = Inr (\<not> ab))
    \<and> ((\<exists>y ys. live b = live a @ y # ys) \<longrightarrow> operator_lt a b = Inr True)"
proof -
  have la: "length (live a) = m_size a" and lb: "length (live b) = m_size b"
    using assms by (simp_all add: allocated_length_live)
  have "(m_size a = m_size b \<and> live a = live b)
      \<longleftrightarrow> (m_size a = m_size b \<and> (\<forall>i<m_size a. live a ! i = live b ! i))"
    using la lb by (auto simp: list_eq_iff_nth_eq)
  then have eq: "operator_eq a b
      = Inr (GetSize a = GetSize b \<and> (\<forall>i<GetSize a. live a ! i = live b ! i))"
    using operator_eq_allocated [OF assms] by (simp add: GetSize_def)
  have lt: "operator_lt a b = Inr ((live a, live b) \<in> lexord {(x, y). x < y})"
    using operator_lt_allocated [OF assms] by (simp add: lexicographical_compare_lexord)
  have lt': "operator_lt b a = Inr (lexicographical_compare (live b) (live a))"
    using assms by (simp add: operator_lt_allocated)
  have pre: "operator_lt a b = Inr True" if "\<exists>y ys. live b = live a @ y # ys"
    using that lt by (auto simp: lexord_append_rightI)
  show ?thesis
    using eq lt lt' pre
    by (simp add: operator_ne_def operator_le_def operator_gt_def operator_ge_def)
qed

theorem comparison_operators_witness:
  "allocated \<lparr>m_size = 3, m_capacity = 3, m_raw_ptr = [7, 7, 7 :: int]\<rparr>
   \<and> allocated \<lparr>m_size = 4, m_capacity = 4, m_raw_ptr = [7, 7, 7, 7 :: int]\<rparr>
   \<and> operator_lt \<lparr>m_size = 3, m_capacity = 3, m_raw_ptr = [7, 7, 7 :: int]\<rparr>
        \<lparr>m_size = 4, m_capacity = 4, m_raw_ptr = [7, 7, 7, 7]\<rparr> = Inr True
   \<and> operator_ge \<lparr>m_size = 3, m_capacity = 3, m_raw_ptr = [7, 7, 7 :: int]\<rparr>
        \<lparr>m_size = 4, m_capacity = 4, m_raw_ptr = [7, 7, 7, 7]\<rparr> = Inr False
   \<and> operator_eq \<lparr>m_size = 3, m_capacity = 3, m_raw_ptr = [7, 7, 7 :: int]\<rparr>
        \<lparr>m_size = 4, m_capacity = 4, m_raw_ptr = [7, 7, 7, 7]\<rparr> = Inr False
   \<and> operator_eq \<lparr>m_size = 3, m_capacity = 3, m_raw_ptr = [7, 7, 7 :: int]\<rparr>
        \<lparr>m_size = 3, m_capacity = 4, m_raw_ptr = [7, 7, 7, 1]\<rparr> = Inr True"
proof -
  let ?a = "\<lparr>m_size = 3, m_capacity = 3, m_raw_ptr = [7, 7, 7 :: int]\<rparr>"
  let ?b = "\<lparr>m_size = 4, m_capacity = 4, m_raw_ptr = [7, 7, 7, 7 :: int]\<rparr>"
  let ?c = "\<lparr>m_size = 3, m_capacity = 4, m_raw_ptr = [7, 7, 7, 1 :: int]\<rparr>"
  have h: "allocated ?a" "allocated ?b" "allocated ?c"
    by (simp_all add: allocated_def)
  have l: "live ?a = [7, 7, 7]" "live ?b = [7, 7, 7, 7]" "live ?c = [7, 7, 7]"
    "GetSize ?a = 3" "GetSize ?b = 4" "GetSize ?c = 3"
    by (simp_all add: live_def GetSize_def)
  from comparison_operators [OF h(1) h(2)] comparison_operators [OF h(1) h(3)] h l
  show ?thesis
    by auto
qed

text \<open>
  Claim C9. \<open>At(i)\<close> fails with \<open>OutOfRange\<close> exactly when \<open>i >= size\<close>, in particular
  at \<open>i = size\<close>; on a vector whose live range is allocated it returns the live element at
  \<open>i\<close> when \<open>i < size\<close>, in particular the last one at \<open>size - 1\<close> of a non-empty vector.
  \<open>At\<close> only reads: the vector is not among its results, so it is the same after a
  failure.
\<close>

theorem At_checked:
  "(At v i = Inl OutOfRange \<longleftrightarrow> GetSize v \<le> i)
   \<and> At v (GetSize v) = Inl OutOfRange
   \<and> (allocated v \<and> i < GetSize v \<longrightarrow> At v i = Inr (live v ! i))
   \<and> (allocated v \<and> \<not> IsEmpty v \<longrightarrow> At v (GetSize v - 1) = Inr (last (live v)))"
proof -
  have a: "At v j = Inr (live v ! j)" if "allocated v" "j < m_size v" for j
    using that by (simp add: At_def buf_read_def allocated_def live_def)
  have "At v (m_size v - 1) = Inr (last (live v))" if "allocated v" "m_size v \<noteq> 0"
  proof -
    have "live v \<noteq> []" "length (live v) = m_size v"
      using that allocated_length_live [OF that(1)] by auto
    then have "last (live v) = live v ! (m_size v - 1)"
      by (simp add: last_conv_nth)
    with a [OF that(1), of "m_size v - 1"] that(2) show ?thesis
      by simp
  qed
  moreover have "At v i = Inl OutOfRange \<longleftrightarrow> m_size v \<le> i"
    by (simp add: At_def buf_read_def)
  moreover have "At v (m_size v) = Inl OutOfRange"
    by (simp add: At_def)
  ultimately show ?thesis
    using a [of i] by (simp add: GetSize_def IsEmpty_def)
qed

theorem At_checked_witness:
  "allocated \<lparr>m_size = 2, m_capacity = 3, m_raw_ptr = [4, 5, 6 :: int]\<rparr>
   \<and> \<not> IsEmpty \<lparr>m_size = 2, m_capacity = 3, m_raw_ptr = [4, 5, 6 :: int]\<rparr>
   \<and> 0 < GetSize \<lparr>m_size = 2, m_capacity = 3, m_raw_ptr = [4, 5, 6 :: int]\<rparr>
   \<and> At \<lparr>m_size = 2, m_capacity = 3, m_raw_ptr = [4, 5, 6 :: int]\<rparr> 0 = Inr 4
   \<and> At \<lparr>m_size = 2, m_capacity = 3, m_raw_ptr = [4, 5, 6 :: int]\<rparr> 1 = Inr 5
   \<and> At \<lparr>m_size = 2, m_capacity = 3, m_raw_ptr = [4, 5, 6 :: int]\<rparr> 2 = Inl OutOfRange"
proof -
  let ?v = "\<lparr>m_size = 2, m_capacity = 3, m_raw_ptr = [4, 5, 6 :: int]\<rparr>"
  have h: "allocated ?v" "\<not> IsEmpty ?v" "(0::nat) < GetSize ?v" "GetSize ?v = 2"
    "live ?v = [4, 5]"
    by (simp_all add: allocated_def IsEmpty_def GetSize_def live_def)
  from At_checked [of ?v 0] h show ?thesis
    by simp
qed

text \<open>
  Claim C10 says that every public operation keeps the reported capacity equal to the
  number of allocated slots. The copy constructor does not: from the valid source with
  size 1 and capacity 2 it builds an object that reports capacity 2 over an allocation of
  one slot. The next \<open>PushBack\<close> on the copy finds \<open>size_ < capacity_\<close> and writes
  outside the allocation.
\<close>

theorem copy_breaks_capacity_invariant:
  "valid \<lparr>m_size = 1, m_capacity = 2, m_raw_ptr = [7, 0 :: int]\<rparr>
   \<and> SimpleVector_copy (\<lambda>i. 0) \<lparr>m_size = 1, m_capacity = 2, m_raw_ptr = [7, 0 :: int]\<rparr>
      = Inr \<lparr>m_size = 1, m_capacity = 2, m_raw_ptr = [7]\<rparr>
   \<and> \<not> valid \<lparr>m_size = 1, m_capacity = 2, m_raw_ptr = [7 :: int]\<rparr>
   \<and> PushBack (\<lambda>i. 0) (\<lambda>x. x) (External 8)
        \<lparr>m_size = 1, m_capacity = 2, m_raw_ptr = [7 :: int]\<rparr>
      = Inl UndefinedBehaviour"
  by (simp add: valid_def SimpleVector_copy_def std_copy_def vbegin_def vend_def ArrayPtr_def
      PushBack_def slot_assign_def buf_write_def upt_rec numeral_eq_Suc)

end
